theory Spec2Isabelle
  imports Main "HOL-Library.Word"
begin

unbundle bit_operations_syntax

chapter \<open>The SQL destination driver (modules/afsql/afsql.c)\<close>

section \<open>Characters and strings\<close>

text \<open>
  A C string is modelled as a \<^typ>\<open>string\<close>: the bytes before the terminating NUL.
  \<open>gchar\<close> is \<open>char\<close>; its value as the C comparisons see it is \<open>gchar c\<close>, read as
  a signed byte (a byte of 128 and more is negative). Every comparison of the source is
  against an ASCII constant, so an unsigned \<open>char\<close> gives the same answers.
\<close>

definition gchar :: "char \<Rightarrow> int" where
  "gchar c = (if of_char c < (128::nat) then int (of_char c) else int (of_char c) - 256)"

text \<open>
  GLib's \<open>g_ascii_tolower\<close>: the upper-case ASCII letters are mapped to lower case, every
  other byte is returned as it is.
\<close>

definition g_ascii_tolower :: "char \<Rightarrow> char" where
  "g_ascii_tolower c =
     (if gchar CHR ''A'' \<le> gchar c \<and> gchar c \<le> gchar CHR ''Z''
      then char_of (of_char c + (32::nat)) else c)"

section \<open>Port and identifier checks\<close>

text \<open>
  \<open>afsql_dd_check_port\<close> (lines 148-156): the loop over \<open>i < strlen(port)\<close> returns
  FALSE at the first byte outside \<open>'0'..'9'\<close> and TRUE when it runs off the end.
\<close>

fun afsql_dd_check_port :: "string \<Rightarrow> bool" where
  "afsql_dd_check_port [] = True"
| "afsql_dd_check_port (c # cs) =
     (if gchar c < gchar CHR ''0'' \<or> gchar c > gchar CHR ''9'' then False
      else afsql_dd_check_port cs)"

text \<open>
  \<open>afsql_dd_check_sql_identifier\<close> (lines 362-378). The loop runs over the bytes of
  \<open>token\<close> with the index \<open>i\<close>; the function below is the loop from index \<open>i\<close> on, the
  list being the bytes from \<open>token[i]\<close>. The token is changed in place, so the model
  returns the token as the call leaves it beside the result. The index is a \<open>gint\<close> in
  the source and a natural number here: tokens of \<open>2^31\<close> bytes and more are outside the
  model.
\<close>

fun check_sql_identifier_from :: "nat \<Rightarrow> string \<Rightarrow> bool \<Rightarrow> bool \<times> string" where
  "check_sql_identifier_from i [] sanitize = (True, [])"
| "check_sql_identifier_from i (c # cs) sanitize =
     (if \<not> (c = CHR ''.'' \<or> c = CHR ''_''
             \<or> (i \<noteq> 0 \<and> gchar c \<ge> gchar CHR ''0'' \<and> gchar c \<le> gchar CHR ''9'')
             \<or> (gchar (g_ascii_tolower c) \<ge> gchar CHR ''a''
                  \<and> gchar (g_ascii_tolower c) \<le> gchar CHR ''z''))
      then
        (if sanitize
         then (case check_sql_identifier_from (Suc i) cs sanitize of
                 (r, cs') \<Rightarrow> (r, CHR ''_'' # cs'))
         else (False, c # cs))
      else
        (case check_sql_identifier_from (Suc i) cs sanitize of
           (r, cs') \<Rightarrow> (r, c # cs')))"

definition afsql_dd_check_sql_identifier :: "string \<Rightarrow> bool \<Rightarrow> bool \<times> string" where
  "afsql_dd_check_sql_identifier token sanitize = check_sql_identifier_from 0 token sanitize"

section \<open>Messages, templates and the database driver library\<close>

text \<open>
  Log messages and templates belong to the host. A message is a list of name-value
  pairs; a template is kept as its source text and rendered by the host's
  \<open>log_template_format\<close>, which takes the message, the time zone slot and the sequence
  number.
\<close>

datatype log_message = LogMessage "(string \<times> string) list"

type_synonym log_template = string

datatype ltz = LTZ_LOCAL | LTZ_SEND

text \<open>
  What the code calls and does not define is a parameter of the model, collected in one
  record. A libdbi call answers by the number of answers the library has given before
  (the field \<open>dbi_calls\<close> of the driver state), so that two calls with the same
  arguments may answer differently:
  \<^item> \<open>dbi_conn_new_r\<close>: whether a handle for the driver type is returned;
  \<^item> \<open>dbi_conn_connect\<close>: whether the connection is made (the C call returns \<open>0\<close> or more);
  \<^item> \<open>dbi_conn_query\<close>: \<open>None\<close> is the NULL result, \<open>Some cols\<close> a result whose field
    names are \<open>cols\<close> (\<open>dbi_result_get_field_idx\<close> returns 0 for a name not among them);
  \<^item> \<open>dbi_conn_ping\<close>: whether the call returns 1;
  \<^item> \<open>dbi_conn_quote_string_copy\<close>: the quoted copy, \<open>None\<close> when none is returned.
  \<open>MD5\<close> is OpenSSL's digest, a 128-bit value whose bytes are read from the most
  significant one; \<open>ENABLE_SSL\<close> is the build-time macro of the same name.
\<close>

record dbi_env =
  log_template_format :: "log_template \<Rightarrow> log_message \<Rightarrow> ltz \<Rightarrow> int \<Rightarrow> string"
  dbi_conn_new_r :: "nat \<Rightarrow> string \<Rightarrow> bool"
  dbi_conn_connect :: "nat \<Rightarrow> bool"
  dbi_conn_query :: "nat \<Rightarrow> string \<Rightarrow> string list option"
  dbi_conn_ping :: "nat \<Rightarrow> bool"
  dbi_conn_quote_string_copy :: "string \<Rightarrow> string option"
  MD5 :: "string \<Rightarrow> 128 word"
  ENABLE_SSL :: bool

section \<open>The queue of the host\<close>

text \<open>
  The queue: \<open>q_items\<close> are the waiting messages, head first; \<open>q_backlog\<close> are the
  messages popped and not yet acknowledged, oldest first; \<open>q_use_backlog\<close> is what
  \<open>log_queue_set_use_backlog\<close> set.
\<close>

record log_queue =
  q_items :: "log_message list"
  q_backlog :: "log_message list"
  q_use_backlog :: bool

text \<open>Modelled from the spec: \<open>log_queue_set_use_backlog\<close> (logqueue.h), the switch that
  makes popped messages stay in the backlog.\<close>

definition log_queue_set_use_backlog :: "log_queue \<Rightarrow> bool \<Rightarrow> log_queue" where
  "log_queue_set_use_backlog q b = q\<lparr>q_use_backlog := b\<rparr>"

text \<open>Modelled from the spec: \<open>log_queue_pop_head\<close> (logqueue.h). The head of the queue
  is removed and returned; with the backlog in use it is kept there until acknowledged
  or rewound. An empty queue returns no message.\<close>

definition log_queue_pop_head :: "log_queue \<Rightarrow> (log_message \<times> log_queue) option" where
  "log_queue_pop_head q =
     (case q_items q of
        [] \<Rightarrow> None
      | m # ms \<Rightarrow>
          Some (m, q\<lparr>q_items := ms,
                     q_backlog := (if q_use_backlog q then q_backlog q @ [m] else q_backlog q)\<rparr>))"

text \<open>Modelled from the spec: \<open>log_queue_push_head\<close> (logqueue.h), "rewind one": the
  message is put back at the head of the queue.\<close>

definition log_queue_push_head :: "log_queue \<Rightarrow> log_message \<Rightarrow> log_queue" where
  "log_queue_push_head q m = q\<lparr>q_items := m # q_items q\<rparr>"

text \<open>Modelled from the spec: \<open>log_queue_push_tail\<close> (logqueue.h).\<close>

definition log_queue_push_tail :: "log_queue \<Rightarrow> log_message \<Rightarrow> log_queue" where
  "log_queue_push_tail q m = q\<lparr>q_items := q_items q @ [m]\<rparr>"

text \<open>Modelled from the spec: \<open>log_queue_rewind_backlog\<close> (logqueue.h). The \<open>n\<close> entries
  popped last (all of them when the backlog holds fewer) go back to the head of the
  queue, in their order.\<close>

definition log_queue_rewind_backlog :: "log_queue \<Rightarrow> nat \<Rightarrow> log_queue" where
  "log_queue_rewind_backlog q n =
     (let k = length (q_backlog q) - n
      in q\<lparr>q_items := drop k (q_backlog q) @ q_items q, q_backlog := take k (q_backlog q)\<rparr>)"

text \<open>Modelled from the spec: \<open>log_queue_rewind_backlog_all\<close> (logqueue.h): the whole
  backlog goes back to the head of the queue.\<close>

definition log_queue_rewind_backlog_all :: "log_queue \<Rightarrow> log_queue" where
  "log_queue_rewind_backlog_all q = q\<lparr>q_items := q_backlog q @ q_items q, q_backlog := []\<rparr>"

text \<open>Modelled from the spec: \<open>log_queue_ack_backlog\<close> (logqueue.h). The argument is a
  \<open>gint\<close>; the \<open>n\<close> oldest entries of the backlog are acknowledged and leave it, none for
  \<open>n\<close> of 0 and less.\<close>

definition log_queue_ack_backlog :: "log_queue \<Rightarrow> int \<Rightarrow> log_queue" where
  "log_queue_ack_backlog q n = q\<lparr>q_backlog := drop (nat n) (q_backlog q)\<rparr>"

text \<open>Modelled from the spec: \<open>log_queue_get_length\<close> (logqueue.h), the number of
  waiting messages.\<close>

definition log_queue_get_length :: "log_queue \<Rightarrow> nat" where
  "log_queue_get_length q = length (q_items q)"

section \<open>The driver structure\<close>

text \<open>Field flags and destination driver flags (lines 41-52).\<close>

definition AFSQL_FF_DEFAULT :: "32 word" where
  "AFSQL_FF_DEFAULT = 0x0001"

definition AFSQL_DDF_EXPLICIT_COMMITS :: "32 word" where
  "AFSQL_DDF_EXPLICIT_COMMITS = 0x0001"

definition AFSQL_DDF_DONT_CREATE_TABLES :: "32 word" where
  "AFSQL_DDF_DONT_CREATE_TABLES = 0x0002"

text \<open>\<open>AFSqlField\<close> (lines 54-60); a NULL \<open>value\<close> is \<open>None\<close>.\<close>

record afsql_field =
  fld_flags :: "32 word"
  fld_name :: string
  fld_type :: string
  fld_value :: "log_template option"

text \<open>
  An entry of the \<open>values\<close> list is a pointer: above 4096 it points to the text of a
  template, otherwise it is the marker \<open>AFSQL_COLUMN_DEFAULT\<close> (any other small value
  runs into \<open>g_assert_not_reached\<close> and is left out of the type).
\<close>

datatype value_spec = Value_template string | AFSQL_COLUMN_DEFAULT

text \<open>
  \<open>AFSqlDestDriver\<close> (lines 73-119). The fields are those the functions below read or
  write; the connection parameters (\<open>host\<close>, \<open>port\<close>, \<open>user\<close>, \<open>password\<close>,
  \<open>database\<close>, \<open>encoding\<close>) only travel to the driver library and are left out, as are
  the mutex, the condition variable and the suspension deadline. \<open>sql_fields\<close> is the
  array \<open>fields\<close> with its length \<open>fields_len\<close>, the empty list being the NULL pointer;
  a \<open>GList\<close> is a list, NULL being the empty one. \<open>gint\<close> values are integers (a
  counter that runs over \<open>2^31 - 1\<close> is outside the model); \<open>failed_message_counter\<close> is
  a \<open>guint32\<close>, kept in \<open>0 ..< 2^32\<close>. \<open>dbi_ctx\<close> tells whether the handle is there
  (not NULL).

  Four fields are not in the structure. They record what leaves the driver:
  \<open>dbi_calls\<close> counts the answers taken from the driver library, \<open>queries\<close> lists the statements
  handed to \<open>dbi_conn_query\<close>, \<open>acked\<close> and \<open>dropped\<close> list the messages passed to
  \<open>log_msg_ack\<close> and \<open>log_msg_drop\<close>. \<open>stored_messages\<close> and \<open>dropped_messages\<close> are the
  values of the two statistics counters.
\<close>

record afsql_dest_driver =
  type :: string
  columns :: "string list"
  "values" :: "value_spec list"
  indexes :: "string list"
  table :: log_template
  sql_fields :: "afsql_field list"
  null_value :: "string option"
  time_reopen :: int
  num_retries :: int
  flush_lines :: int
  flush_lines_queued :: int
  flags :: "32 word"
  session_statements :: "string list"
  dropped_messages :: nat
  stored_messages :: nat
  db_thread_terminate :: bool
  db_thread_suspended :: bool
  queue :: log_queue
  seq_num :: int
  dbi_ctx :: bool
  validated_tables :: "string set"
  failed_message_counter :: int
  enable_indexes :: bool
  transaction_active :: bool
  dbi_calls :: nat
  queries :: "string list"
  acked :: "log_message list"
  dropped :: "log_message list"

definition s_oracle :: string where
  "s_oracle = ''oracle''"

definition s_freetds :: string where
  "s_freetds = ''freetds''"

definition MAX_FAILED_ATTEMPTS :: int where
  "MAX_FAILED_ATTEMPTS = 3"

text \<open>
  \<open>afsql_dd_new\<close> (lines 1421-1460). \<open>g_new0\<close> zeroes the structure, so every field the
  function does not set is 0, FALSE or NULL; the queue pointer is NULL until
  \<open>afsql_dd_init\<close> acquires the queue, and stands here as a queue with nothing in it.
\<close>

definition afsql_dd_new :: afsql_dest_driver where
  "afsql_dd_new =
     \<lparr> type = ''mysql'', columns = [], values = [], indexes = [], table = ''messages'',
       sql_fields = [], null_value = None, time_reopen = 0,
       num_retries = MAX_FAILED_ATTEMPTS, flush_lines = -1, flush_lines_queued = -1,
       flags = 0, session_statements = [], dropped_messages = 0, stored_messages = 0,
       db_thread_terminate = False, db_thread_suspended = False,
       queue = \<lparr>q_items = [], q_backlog = [], q_use_backlog = False\<rparr>,
       seq_num = 0, dbi_ctx = False, validated_tables = {}, failed_message_counter = 0,
       enable_indexes = False, transaction_active = False,
       dbi_calls = 0, queries = [], acked = [], dropped = [] \<rparr>"

text \<open>The setters the configuration parser calls (lines 128-317).\<close>

definition afsql_dd_set_type :: "afsql_dest_driver \<Rightarrow> string \<Rightarrow> afsql_dest_driver" where
  "afsql_dd_set_type self t = self\<lparr>type := (if t = ''mssql'' then s_freetds else t)\<rparr>"

definition afsql_dd_set_table :: "afsql_dest_driver \<Rightarrow> string \<Rightarrow> afsql_dest_driver" where
  "afsql_dd_set_table self t = self\<lparr>table := t\<rparr>"

definition afsql_dd_set_columns :: "afsql_dest_driver \<Rightarrow> string list \<Rightarrow> afsql_dest_driver" where
  "afsql_dd_set_columns self cs = self\<lparr>columns := cs\<rparr>"

definition afsql_dd_set_indexes :: "afsql_dest_driver \<Rightarrow> string list \<Rightarrow> afsql_dest_driver" where
  "afsql_dd_set_indexes self ixs =
     (if ixs \<noteq> [] then self\<lparr>enable_indexes := True, indexes := ixs\<rparr>
      else self\<lparr>enable_indexes := False, indexes := [[]]\<rparr>)"

definition afsql_dd_set_values :: "afsql_dest_driver \<Rightarrow> value_spec list \<Rightarrow> afsql_dest_driver" where
  "afsql_dd_set_values self vs = self\<lparr>values := vs\<rparr>"

definition afsql_dd_set_null_value :: "afsql_dest_driver \<Rightarrow> string \<Rightarrow> afsql_dest_driver" where
  "afsql_dd_set_null_value self n = self\<lparr>null_value := Some n\<rparr>"

definition afsql_dd_set_retries :: "afsql_dest_driver \<Rightarrow> int \<Rightarrow> afsql_dest_driver" where
  "afsql_dd_set_retries self n =
     (if n < 1 then self\<lparr>num_retries := 1\<rparr> else self\<lparr>num_retries := n\<rparr>)"

definition afsql_dd_set_flush_lines :: "afsql_dest_driver \<Rightarrow> int \<Rightarrow> afsql_dest_driver" where
  "afsql_dd_set_flush_lines self n = self\<lparr>flush_lines := n\<rparr>"

definition afsql_dd_set_session_statements ::
  "afsql_dest_driver \<Rightarrow> string list \<Rightarrow> afsql_dest_driver" where
  "afsql_dd_set_session_statements self sts = self\<lparr>session_statements := sts\<rparr>"

definition afsql_dd_set_flags :: "afsql_dest_driver \<Rightarrow> 32 word \<Rightarrow> afsql_dest_driver" where
  "afsql_dd_set_flags self f = self\<lparr>flags := f\<rparr>"

section \<open>Queries and transactions\<close>

text \<open>
  \<open>afsql_dd_run_query\<close> (lines 326-360). The answer of the library is returned: \<open>None\<close>
  where the C function returns FALSE, the result where it returns TRUE (the callers that
  pass no \<open>result\<close> only test it). \<open>silent\<close> chooses whether the failure is logged and
  has no place in the model.
\<close>

definition afsql_dd_run_query ::
  "dbi_env \<Rightarrow> afsql_dest_driver \<Rightarrow> string \<Rightarrow> string list option \<times> afsql_dest_driver" where
  "afsql_dd_run_query env self query =
     (dbi_conn_query env (dbi_calls self) query,
      self\<lparr>dbi_calls := dbi_calls self + 1, queries := queries self @ [query]\<rparr>)"

text \<open>\<open>afsql_dd_handle_transaction_error\<close> (lines 387-392).\<close>

definition afsql_dd_handle_transaction_error :: "afsql_dest_driver \<Rightarrow> afsql_dest_driver" where
  "afsql_dd_handle_transaction_error self =
     self\<lparr>queue := log_queue_rewind_backlog_all (queue self), flush_lines_queued := 0\<rparr>"

text \<open>\<open>afsql_dd_commit_transaction\<close> (lines 401-423).\<close>

definition afsql_dd_commit_transaction ::
  "dbi_env \<Rightarrow> afsql_dest_driver \<Rightarrow> bool \<times> afsql_dest_driver" where
  "afsql_dd_commit_transaction env self =
     (if \<not> transaction_active self then (True, self)
      else
        (case afsql_dd_run_query env self ''COMMIT'' of
           (Some res, self1) \<Rightarrow>
             (True, self1\<lparr>queue := log_queue_ack_backlog (queue self1) (flush_lines_queued self1),
                          flush_lines_queued := 0,
                          transaction_active := False\<rparr>)
         | (None, self1) \<Rightarrow> (False, afsql_dd_handle_transaction_error self1)))"

text \<open>\<open>afsql_dd_begin_transaction\<close> (lines 432-450).\<close>

definition afsql_dd_begin_transaction ::
  "dbi_env \<Rightarrow> afsql_dest_driver \<Rightarrow> bool \<times> afsql_dest_driver" where
  "afsql_dd_begin_transaction env self =
     (let s_begin = (if type self = s_freetds then ''BEGIN TRANSACTION'' else ''BEGIN'')
      in case (if type self \<noteq> s_oracle
               then (case afsql_dd_run_query env self s_begin of
                       (res, self1) \<Rightarrow> (res \<noteq> None, self1))
               else (True, self)) of
           (success, self1) \<Rightarrow> (success, self1\<lparr>transaction_active := True\<rparr>))"

text \<open>\<open>afsql_dd_rollback_transaction\<close> (lines 452-461).\<close>

definition afsql_dd_rollback_transaction ::
  "dbi_env \<Rightarrow> afsql_dest_driver \<Rightarrow> bool \<times> afsql_dest_driver" where
  "afsql_dd_rollback_transaction env self =
     (if \<not> transaction_active self then (True, self)
      else
        (case afsql_dd_run_query env (self\<lparr>transaction_active := False\<rparr>) ''ROLLBACK'' of
           (res, self1) \<Rightarrow> (res \<noteq> None, self1)))"

text \<open>\<open>afsql_dd_begin_new_transaction\<close> (lines 463-476).\<close>

definition afsql_dd_begin_new_transaction ::
  "dbi_env \<Rightarrow> afsql_dest_driver \<Rightarrow> bool \<times> afsql_dest_driver" where
  "afsql_dd_begin_new_transaction env self =
     (if transaction_active self
      then
        (case afsql_dd_commit_transaction env self of
           (False, self1) \<Rightarrow> (False, snd (afsql_dd_rollback_transaction env self1))
         | (True, self1) \<Rightarrow> afsql_dd_begin_transaction env self1)
      else afsql_dd_begin_transaction env self)"

section \<open>Index names and the schema check\<close>

text \<open>The sixteen bytes of the digest, as \<open>MD5\<close> writes them to \<open>hash\<close>.\<close>

definition md5_bytes :: "128 word \<Rightarrow> 8 word list" where
  "md5_bytes w = map (\<lambda>i. ucast (drop_bit (8 * (15 - i)) w)) [0..<16]"

definition hex_digit :: "nat \<Rightarrow> char" where
  "hex_digit n = ''0123456789abcdef'' ! (n mod 16)"

definition format_hex_byte :: "8 word \<Rightarrow> string" where
  "format_hex_byte b = [hex_digit (unat b div 16), hex_digit (unat b mod 16)]"

text \<open>Modelled from the spec: \<open>format_hex_string\<close> (misc.c) writes the bytes as ASCII
  hex, two lower-case digits each, truncated to what the result buffer of \<open>result_len\<close>
  bytes holds beside its terminating NUL.\<close>

definition format_hex_string :: "8 word list \<Rightarrow> nat \<Rightarrow> string" where
  "format_hex_string data result_len = take (result_len - 1) (concat (map format_hex_byte data))"

text \<open>
  \<open>afsql_dd_create_index\<close> (lines 486-538): first the statement it builds in
  \<open>query_string\<close>, then the call. Without \<open>ENABLE_SSL\<close> the branch for the long Oracle
  name only logs a warning, and the statement stays the empty string it was created as.
\<close>

definition afsql_dd_create_index_query ::
  "dbi_env \<Rightarrow> afsql_dest_driver \<Rightarrow> string \<Rightarrow> string \<Rightarrow> string" where
  "afsql_dd_create_index_query env self tab column =
     (if type self = s_oracle then
        (if length tab + length column > 25 then
           (if ENABLE_SSL env then
              (let hash = md5_bytes (MD5 env (tab @ ''_'' @ column));
                   hash_str = (format_hex_string hash 31)[0 := CHR ''i'']
               in ''CREATE INDEX '' @ hash_str @ '' ON '' @ tab @ '' ('' @ column @ '')'')
            else [])
         else ''CREATE INDEX '' @ tab @ ''_'' @ column @ ''_idx ON '' @ tab @ '' ('' @ column @ '')'')
      else ''CREATE INDEX '' @ tab @ ''_'' @ column @ ''_idx ON '' @ tab @ '' ('' @ column @ '')'')"

definition afsql_dd_create_index ::
  "dbi_env \<Rightarrow> afsql_dest_driver \<Rightarrow> string \<Rightarrow> string \<Rightarrow> bool \<times> afsql_dest_driver" where
  "afsql_dd_create_index env self tab column =
     (case afsql_dd_run_query env self (afsql_dd_create_index_query env self tab column) of
        (res, self1) \<Rightarrow> (res \<noteq> None, self1))"

text \<open>The loop of lines 612-619: an index for each entry of \<open>indexes\<close> equal to the
  column added; the result of \<open>afsql_dd_create_index\<close> is not looked at.\<close>

fun create_indexes_of_column ::
  "dbi_env \<Rightarrow> afsql_dest_driver \<Rightarrow> string \<Rightarrow> string \<Rightarrow> string list \<Rightarrow> afsql_dest_driver" where
  "create_indexes_of_column env self tab name [] = self"
| "create_indexes_of_column env self tab name (l # ls) =
     (if l = name
      then create_indexes_of_column env (snd (afsql_dd_create_index env self tab name)) tab name ls
      else create_indexes_of_column env self tab name ls)"

text \<open>The loop of lines 654-657: an index for every entry of \<open>indexes\<close>.\<close>

fun create_all_indexes ::
  "dbi_env \<Rightarrow> afsql_dest_driver \<Rightarrow> string \<Rightarrow> string list \<Rightarrow> afsql_dest_driver" where
  "create_all_indexes env self tab [] = self"
| "create_all_indexes env self tab (l # ls) =
     create_all_indexes env (snd (afsql_dd_create_index env self tab l)) tab ls"

text \<open>
  The loop of lines 582-622 over the fields still to check, \<open>db_res\<close> being the field
  names of the probe's result and \<open>new_transaction_started\<close> the flag of the same name.
  The result is \<open>success\<close>.
\<close>

fun validate_table_fields ::
  "dbi_env \<Rightarrow> afsql_dest_driver \<Rightarrow> string \<Rightarrow> string list \<Rightarrow> afsql_field list \<Rightarrow> bool
     \<Rightarrow> bool \<times> afsql_dest_driver" where
  "validate_table_fields env self tab db_res [] new_transaction_started = (True, self)"
| "validate_table_fields env self tab db_res (f # fs) new_transaction_started =
     (if fld_name f \<notin> set db_res then
        (case (if \<not> new_transaction_started then afsql_dd_begin_new_transaction env self
               else (True, self)) of
           (False, self1) \<Rightarrow> (False, self1)
         | (True, self1) \<Rightarrow>
             (case afsql_dd_run_query env self1
                     (''ALTER TABLE '' @ tab @ '' ADD '' @ fld_name f @ '' '' @ fld_type f) of
                (None, self2) \<Rightarrow> (False, self2)
              | (Some res, self2) \<Rightarrow>
                  validate_table_fields env
                    (if enable_indexes self2
                     then create_indexes_of_column env self2 tab (fld_name f) (indexes self2)
                     else self2)
                    tab db_res fs True))
      else validate_table_fields env self tab db_res fs new_transaction_started)"

text \<open>The column list of \<open>CREATE TABLE\<close> (lines 640-645).\<close>

fun create_table_columns :: "afsql_field list \<Rightarrow> string" where
  "create_table_columns [] = []"
| "create_table_columns (f # fs) =
     fld_name f @ '' '' @ fld_type f @ (if fs \<noteq> [] then '', '' else []) @ create_table_columns fs"

text \<open>
  \<open>afsql_dd_validate_table\<close> (lines 549-675). The table name is sanitized in the caller's
  buffer, so the name as the call leaves it is returned too. Where the table does not
  exist, a failure of \<open>afsql_dd_begin_new_transaction\<close> only sets \<open>success\<close>, which the
  result of \<open>CREATE TABLE\<close> then overwrites.
\<close>

definition afsql_dd_validate_table ::
  "dbi_env \<Rightarrow> afsql_dest_driver \<Rightarrow> string \<Rightarrow> bool \<times> string \<times> afsql_dest_driver" where
  "afsql_dd_validate_table env self tab =
     (if flags self AND AFSQL_DDF_DONT_CREATE_TABLES \<noteq> 0 then (True, tab, self)
      else
        (let tab1 = snd (afsql_dd_check_sql_identifier tab True) in
         if tab1 \<in> validated_tables self then (True, tab1, self)
         else
           (case afsql_dd_begin_new_transaction env self of
              (False, self1) \<Rightarrow> (False, tab1, self1)
            | (True, self1) \<Rightarrow>
                (case afsql_dd_run_query env self1 (''SELECT * FROM '' @ tab1 @ '' WHERE 0=1'') of
                   (Some db_res, self2) \<Rightarrow>
                     (case validate_table_fields env self2 tab1 db_res (sql_fields self2) False of
                        (success, self3) \<Rightarrow>
                          (success, tab1,
                           if success
                           then self3\<lparr>validated_tables := insert tab1 (validated_tables self3)\<rparr>
                           else self3))
                 | (None, self2) \<Rightarrow>
                     (let self3 = snd (afsql_dd_begin_new_transaction env self2) in
                      case afsql_dd_run_query env self3
                             (''CREATE TABLE '' @ tab1 @ '' (''
                                @ create_table_columns (sql_fields self3) @ '')'') of
                        (Some res, self4) \<Rightarrow>
                          (let self5 = (if enable_indexes self4
                                        then create_all_indexes env self4 tab1 (indexes self4)
                                        else self4)
                           in (True, tab1,
                               self5\<lparr>validated_tables := insert tab1 (validated_tables self5)\<rparr>))
                      | (None, self4) \<Rightarrow> (False, tab1, self4))))))"

section \<open>The connection\<close>

text \<open>\<open>afsql_dd_suspend\<close> (lines 684-690); the deadline it computes from the clock is not
  modelled. \<open>afsql_dd_disconnect\<close> (lines 692-698).\<close>

definition afsql_dd_suspend :: "afsql_dest_driver \<Rightarrow> afsql_dest_driver" where
  "afsql_dd_suspend self = self\<lparr>db_thread_suspended := True\<rparr>"

definition afsql_dd_disconnect :: "afsql_dest_driver \<Rightarrow> afsql_dest_driver" where
  "afsql_dd_disconnect self = self\<lparr>dbi_ctx := False, validated_tables := {}\<rparr>"

text \<open>The loop over \<open>session_statements\<close> (lines 751-766).\<close>

fun run_session_statements ::
  "dbi_env \<Rightarrow> afsql_dest_driver \<Rightarrow> string list \<Rightarrow> bool \<times> afsql_dest_driver" where
  "run_session_statements env self [] = (True, self)"
| "run_session_statements env self (l # ls) =
     (case afsql_dd_run_query env self l of
        (None, self1) \<Rightarrow> (False, self1)
      | (Some res, self1) \<Rightarrow> run_session_statements env self1 ls)"

text \<open>\<open>afsql_dd_ensure_initialized_connection\<close> (lines 700-769). The options set on the
  handle go to the driver library only.\<close>

definition afsql_dd_ensure_initialized_connection ::
  "dbi_env \<Rightarrow> afsql_dest_driver \<Rightarrow> bool \<times> afsql_dest_driver" where
  "afsql_dd_ensure_initialized_connection env self =
     (if dbi_ctx self then (True, self)
      else
        (let self1 = self\<lparr>dbi_ctx := dbi_conn_new_r env (dbi_calls self) (type self),
                          dbi_calls := dbi_calls self + 1\<rparr>
         in if \<not> dbi_ctx self1 then (False, self1)
            else
              (let self2 = self1\<lparr>dbi_calls := dbi_calls self1 + 1\<rparr>
               in if \<not> dbi_conn_connect env (dbi_calls self1) then (False, self2)
                  else run_session_statements env self2 (session_statements self2))))"

text \<open>\<open>afsql_dd_ensure_accessible_database_table\<close> (lines 771-789): the table name the
  validated statement is to use, or \<open>None\<close> for NULL.\<close>

definition afsql_dd_ensure_accessible_database_table ::
  "dbi_env \<Rightarrow> afsql_dest_driver \<Rightarrow> log_message \<Rightarrow> string option \<times> afsql_dest_driver" where
  "afsql_dd_ensure_accessible_database_table env self msg =
     (case afsql_dd_validate_table env self
             (log_template_format env (table self) msg LTZ_LOCAL 0) of
        (False, tab, self1) \<Rightarrow> (None, self1)
      | (True, tab, self1) \<Rightarrow> (Some tab, self1))"

section \<open>The INSERT statement\<close>

text \<open>
  \<open>afsql_dd_build_insert_command\<close> (lines 791-855). Both loops run over the fields; after
  a field that is written, the inner \<open>while\<close> skips the fields that follow with
  \<open>AFSQL_FF_DEFAULT\<close> set, and the separator is appended when a field is left after them
  (\<open>j < fields_len\<close>). \<open>fields_after_defaults\<close> is what is left from index \<open>j\<close> on.
\<close>

definition fields_after_defaults :: "afsql_field list \<Rightarrow> afsql_field list" where
  "fields_after_defaults fs =
     dropWhile (\<lambda>f. fld_flags f AND AFSQL_FF_DEFAULT = AFSQL_FF_DEFAULT) fs"

text \<open>The first loop (lines 800-813): the column list.\<close>

fun insert_command_columns :: "afsql_field list \<Rightarrow> string" where
  "insert_command_columns [] = []"
| "insert_command_columns (f # fs) =
     (if fld_flags f AND AFSQL_FF_DEFAULT = 0 \<and> fld_value f \<noteq> None
      then fld_name f @ (if fields_after_defaults fs \<noteq> [] then '', '' else [])
      else [])
     @ insert_command_columns fs"

text \<open>What the second loop appends for the value of one field (lines 823-840): the
  template is rendered with the send time zone and the sequence number; the literal
  \<open>NULL\<close> stands for a value equal to \<open>null_value\<close>, the quoted copy of the driver for
  any other, and two single quotes where the driver returns no copy.\<close>

definition sql_empty_string :: string where
  "sql_empty_string = [CHR 0x27, CHR 0x27]"

definition insert_command_value ::
  "dbi_env \<Rightarrow> afsql_dest_driver \<Rightarrow> log_message \<Rightarrow> log_template \<Rightarrow> string" where
  "insert_command_value env self msg tmpl =
     (let v = log_template_format env tmpl msg LTZ_SEND (seq_num self)
      in if null_value self \<noteq> None \<and> the (null_value self) = v then ''NULL''
         else (case dbi_conn_quote_string_copy env v of
                 Some quoted \<Rightarrow> quoted
               | None \<Rightarrow> sql_empty_string))"

text \<open>The second loop (lines 817-848): the values list.\<close>

fun insert_command_values ::
  "dbi_env \<Rightarrow> afsql_dest_driver \<Rightarrow> log_message \<Rightarrow> afsql_field list \<Rightarrow> string" where
  "insert_command_values env self msg [] = []"
| "insert_command_values env self msg (f # fs) =
     (if fld_flags f AND AFSQL_FF_DEFAULT = 0 \<and> fld_value f \<noteq> None
      then insert_command_value env self msg (the (fld_value f))
           @ (if fields_after_defaults fs \<noteq> [] then '', '' else [])
      else [])
     @ insert_command_values env self msg fs"

definition afsql_dd_build_insert_command ::
  "dbi_env \<Rightarrow> afsql_dest_driver \<Rightarrow> log_message \<Rightarrow> string \<Rightarrow> string" where
  "afsql_dd_build_insert_command env self msg tab =
     ''INSERT INTO '' @ tab @ '' ('' @ insert_command_columns (sql_fields self)
       @ '') VALUES ('' @ insert_command_values env self msg (sql_fields self) @ '')''"

section \<open>Inserting one message\<close>

text \<open>The three inline tests of lines 857-873.\<close>

definition afsql_dd_is_transaction_handling_enabled :: "afsql_dest_driver \<Rightarrow> bool" where
  "afsql_dd_is_transaction_handling_enabled self = (flush_lines_queued self \<noteq> -1)"

definition afsql_dd_should_begin_new_transaction :: "afsql_dest_driver \<Rightarrow> bool" where
  "afsql_dd_should_begin_new_transaction self = (flush_lines_queued self = 0)"

definition afsql_dd_should_commit_transaction :: "afsql_dest_driver \<Rightarrow> bool" where
  "afsql_dd_should_commit_transaction self =
     (afsql_dd_is_transaction_handling_enabled self
      \<and> flush_lines_queued self = flush_lines self)"

text \<open>\<open>afsql_dd_rollback_msg\<close> (lines 875-882).\<close>

definition afsql_dd_rollback_msg :: "afsql_dest_driver \<Rightarrow> log_message \<Rightarrow> afsql_dest_driver" where
  "afsql_dd_rollback_msg self msg =
     (if flags self AND AFSQL_DDF_EXPLICIT_COMMITS \<noteq> 0
      then self\<lparr>queue := log_queue_rewind_backlog (queue self) 1\<rparr>
      else self\<lparr>queue := log_queue_push_head (queue self) msg\<rparr>)"

text \<open>\<open>afsql_dd_handle_insert_row_error_depending_on_connection_availability\<close>
  (lines 884-920).\<close>

definition afsql_dd_handle_insert_row_error_depending_on_connection_availability ::
  "dbi_env \<Rightarrow> afsql_dest_driver \<Rightarrow> log_message \<Rightarrow> bool \<times> afsql_dest_driver" where
  "afsql_dd_handle_insert_row_error_depending_on_connection_availability env self msg =
     (let self1 = self\<lparr>dbi_calls := dbi_calls self + 1\<rparr>
      in if dbi_conn_ping env (dbi_calls self) then (True, afsql_dd_rollback_msg self1 msg)
         else if afsql_dd_is_transaction_handling_enabled self1
              then (False, afsql_dd_handle_transaction_error self1)
              else (False, afsql_dd_rollback_msg self1 msg))"

text \<open>Modelled from the spec: \<open>step_sequence_number\<close> (misc.h) advances the sequence
  number by exactly one.\<close>

definition step_sequence_number :: "int \<Rightarrow> int" where
  "step_sequence_number n = n + 1"

text \<open>
  \<open>afsql_dd_insert_db\<close> from the label \<open>out\<close> on (lines 982-1019), entered with the
  message and the value of \<open>success\<close>. The comparison of the \<open>guint32\<close> counter with
  \<open>num_retries - 1\<close> is made in unsigned arithmetic.
\<close>

definition insert_db_out ::
  "dbi_env \<Rightarrow> afsql_dest_driver \<Rightarrow> log_message \<Rightarrow> bool \<Rightarrow> bool \<times> afsql_dest_driver" where
  "insert_db_out env self msg success =
     (if success
      then (True, self\<lparr>acked := acked self @ [msg],
                       seq_num := step_sequence_number (seq_num self),
                       failed_message_counter := 0\<rparr>)
      else if failed_message_counter self < (num_retries self - 1) mod 2 ^ 32
      then
        (case afsql_dd_handle_insert_row_error_depending_on_connection_availability env self msg of
           (False, self1) \<Rightarrow> (False, self1)
         | (True, self1) \<Rightarrow>
             (False, self1\<lparr>failed_message_counter := (failed_message_counter self1 + 1) mod 2 ^ 32\<rparr>))
      else (True, self\<lparr>dropped_messages := dropped_messages self + 1,
                       dropped := dropped self @ [msg],
                       failed_message_counter := 0\<rparr>))"

text \<open>
  \<open>afsql_dd_insert_db\<close> from the result of the INSERT on (lines 966-980, then the label
  \<open>out\<close>): the count of the queued lines, the commit at the threshold, and the early
  return where that commit fails.
\<close>

definition insert_db_after_query ::
  "dbi_env \<Rightarrow> afsql_dest_driver \<Rightarrow> log_message \<Rightarrow> bool \<Rightarrow> bool \<times> afsql_dest_driver" where
  "insert_db_after_query env self msg success =
     (if success \<and> flush_lines_queued self \<noteq> -1
      then
        (let self1 = self\<lparr>flush_lines_queued := flush_lines_queued self + 1\<rparr>
         in if afsql_dd_should_commit_transaction self1
            then
              (case afsql_dd_commit_transaction env self1 of
                 (False, self2) \<Rightarrow> (False, snd (afsql_dd_rollback_transaction env self2))
               | (True, self2) \<Rightarrow> insert_db_out env self2 msg success)
            else insert_db_out env self1 msg success)
      else insert_db_out env self msg success)"

text \<open>\<open>afsql_dd_insert_db\<close> (lines 930-1020). Each \<open>goto out\<close> is a call of
  \<open>insert_db_out\<close> with \<open>success\<close> FALSE.\<close>

definition afsql_dd_insert_db :: "dbi_env \<Rightarrow> afsql_dest_driver \<Rightarrow> bool \<times> afsql_dest_driver" where
  "afsql_dd_insert_db env self =
     (case afsql_dd_ensure_initialized_connection env self of
        (False, self1) \<Rightarrow> (False, self1)
      | (True, self1) \<Rightarrow>
          (case log_queue_pop_head (queue self1) of
             None \<Rightarrow> (True, self1)
           | Some (msg, q) \<Rightarrow>
               (case afsql_dd_ensure_accessible_database_table env (self1\<lparr>queue := q\<rparr>) msg of
                  (None, self2) \<Rightarrow> insert_db_out env self2 msg False
                | (Some tab, self2) \<Rightarrow>
                    (case (if afsql_dd_should_begin_new_transaction self2
                           then afsql_dd_begin_transaction env self2 else (True, self2)) of
                       (False, self3) \<Rightarrow> insert_db_out env self3 msg False
                     | (True, self3) \<Rightarrow>
                         (case afsql_dd_run_query env self3
                                 (afsql_dd_build_insert_command env self3 msg tab) of
                            (res, self4) \<Rightarrow>
                              insert_db_after_query env self4 msg (res \<noteq> None))))))"

text \<open>
  The part of \<open>afsql_dd_insert_db\<close> before the INSERT (lines 939-961) on its own: the
  message popped, the table name and the state with which the INSERT statement is built
  and sent, \<open>None\<close> where the function leaves or jumps to \<open>out\<close> before.
\<close>

definition insert_attempt ::
  "dbi_env \<Rightarrow> afsql_dest_driver \<Rightarrow> (log_message \<times> string \<times> afsql_dest_driver) option" where
  "insert_attempt env self =
     (case afsql_dd_ensure_initialized_connection env self of
        (False, self1) \<Rightarrow> None
      | (True, self1) \<Rightarrow>
          (case log_queue_pop_head (queue self1) of
             None \<Rightarrow> None
           | Some (msg, q) \<Rightarrow>
               (case afsql_dd_ensure_accessible_database_table env (self1\<lparr>queue := q\<rparr>) msg of
                  (None, self2) \<Rightarrow> None
                | (Some tab, self2) \<Rightarrow>
                    (case (if afsql_dd_should_begin_new_transaction self2
                           then afsql_dd_begin_transaction env self2 else (True, self2)) of
                       (False, self3) \<Rightarrow> None
                     | (True, self3) \<Rightarrow> Some (msg, tab, self3)))))"

section \<open>The database thread\<close>

text \<open>
  Of \<open>afsql_dd_database_thread\<close> (lines 1049-1125) the steps that touch the driver state
  are modelled; the waits on the condition variable are not. \<open>db_thread_idle_flush\<close> is
  the branch taken when the queue has nothing to insert (lines 1069-1081),
  \<open>db_thread_insert\<close> the insertion with its failure handling (lines 1094-1098),
  \<open>db_thread_final_flush\<close> the last commit before the thread leaves (lines 1109-1118).
\<close>

definition db_thread_idle_flush :: "dbi_env \<Rightarrow> afsql_dest_driver \<Rightarrow> afsql_dest_driver" where
  "db_thread_idle_flush env self =
     (if flush_lines_queued self > 0
      then
        (case afsql_dd_commit_transaction env self of
           (False, self1) \<Rightarrow>
             (case afsql_dd_rollback_transaction env self1 of
                (False, self2) \<Rightarrow> afsql_dd_suspend (afsql_dd_disconnect self2)
              | (True, self2) \<Rightarrow> self2)
         | (True, self1) \<Rightarrow> self1)
      else self)"

definition db_thread_insert :: "dbi_env \<Rightarrow> afsql_dest_driver \<Rightarrow> afsql_dest_driver" where
  "db_thread_insert env self =
     (case afsql_dd_insert_db env self of
        (False, self1) \<Rightarrow> afsql_dd_suspend (afsql_dd_disconnect self1)
      | (True, self1) \<Rightarrow> self1)"

definition db_thread_final_flush :: "dbi_env \<Rightarrow> afsql_dest_driver \<Rightarrow> afsql_dest_driver" where
  "db_thread_final_flush env self =
     (if flush_lines_queued self > 0
      then
        (case afsql_dd_commit_transaction env self of
           (False, self1) \<Rightarrow> snd (afsql_dd_rollback_transaction env self1)
         | (True, self1) \<Rightarrow> self1)
      else self)"

section \<open>Initialization\<close>

text \<open>
  What \<open>afsql_dd_init\<close> takes from the host: the global \<open>server_mode\<close>, the result of
  \<open>log_dest_driver_init_method\<close>, the sequence number fetched from the persistent
  configuration (0 when there is none) and the value \<open>init_sequence_number\<close> sets, the
  queue \<open>log_dest_driver_acquire_queue\<close> returns (\<open>None\<close> for NULL), the global options
  \<open>time_reopen\<close> and \<open>flush_lines\<close> of the configuration, and the return code of
  \<open>dbi_initialize_r\<close>.
\<close>

record init_env =
  server_mode :: bool
  log_dest_driver_init_method :: bool
  cfg_persist_config_fetch :: int
  init_sequence_number :: int
  log_dest_driver_acquire_queue :: "log_queue option"
  cfg_time_reopen :: int
  cfg_flush_lines :: int
  dbi_initialize_r :: int

text \<open>The name and the type of a column declaration (lines 1254-1269): the name ends
  at the first space, the type is what follows the spaces, \<open>text\<close> when nothing does.\<close>

definition column_name :: "string \<Rightarrow> string" where
  "column_name col = takeWhile (\<lambda>c. c \<noteq> CHR '' '') col"

definition column_type :: "string \<Rightarrow> string" where
  "column_type col =
     (let rest = dropWhile (\<lambda>c. c = CHR '' '') (dropWhile (\<lambda>c. c \<noteq> CHR '' '') col)
      in if rest \<noteq> [] then rest else ''text'')"

text \<open>
  The loop that fills \<open>fields\<close> (lines 1250-1295). \<open>g_new0\<close> zeroes the array, so the
  entries the loop does not reach keep flags 0 and NULL pointers (a NULL name or type
  stands as the empty string). The result is FALSE where the loop returns FALSE for a
  column name that is no SQL identifier.
\<close>

definition zero_field :: afsql_field where
  "zero_field = \<lparr>fld_flags = 0, fld_name = [], fld_type = [], fld_value = None\<rparr>"

fun init_fields :: "string list \<Rightarrow> value_spec list \<Rightarrow> bool \<times> afsql_field list" where
  "init_fields (col # cols) (v # vs) =
     (let f = zero_field\<lparr>fld_name := column_name col, fld_type := column_type col\<rparr>
      in if \<not> fst (afsql_dd_check_sql_identifier (fld_name f) False)
         then (False, f # replicate (length cols) zero_field)
         else
           (case init_fields cols vs of
              (ok, fs) \<Rightarrow>
                (ok,
                 (case v of
                    Value_template t \<Rightarrow> f\<lparr>fld_value := Some t\<rparr>
                  | AFSQL_COLUMN_DEFAULT \<Rightarrow> f\<lparr>fld_flags := fld_flags f OR AFSQL_FF_DEFAULT\<rparr>)
                 # fs)))"
| "init_fields cols vs = (True, [])"

text \<open>
  \<open>afsql_dd_init\<close> (lines 1189-1344). The static \<open>dbi_initialized\<close> is passed in and
  returned beside the result and the driver. The registration of the statistics
  counters and the start of the thread leave the driver state as it is.
\<close>

definition afsql_dd_init ::
  "init_env \<Rightarrow> bool \<Rightarrow> afsql_dest_driver \<Rightarrow> bool \<times> afsql_dest_driver \<times> bool" where
  "afsql_dd_init ienv dbi_initialized self =
     (if \<not> server_mode ienv then (False, self, dbi_initialized)
      else if \<not> log_dest_driver_init_method ienv then (False, self, dbi_initialized)
      else if columns self = [] \<or> indexes self = [] \<or> values self = []
      then (False, self, dbi_initialized)
      else
        (let self1 = self\<lparr>seq_num := (if cfg_persist_config_fetch ienv = 0
                                         then init_sequence_number ienv
                                         else cfg_persist_config_fetch ienv)\<rparr>
         in case log_dest_driver_acquire_queue ienv of
              None \<Rightarrow> (False, self1, dbi_initialized)
            | Some q \<Rightarrow>
                (let self2 = self1\<lparr>queue :=
                               (if flags self1 AND AFSQL_DDF_EXPLICIT_COMMITS \<noteq> 0
                                then log_queue_set_use_backlog q True else q)\<rparr>
                 in if sql_fields self2 = [] \<and> length (columns self2) \<noteq> length (values self2)
                    then (False, self2, dbi_initialized)
                    else
                      (case (if sql_fields self2 = []
                             then init_fields (columns self2) (values self2)
                             else (True, sql_fields self2)) of
                         (False, fs) \<Rightarrow> (False, self2\<lparr>sql_fields := fs\<rparr>, dbi_initialized)
                       | (True, fs) \<Rightarrow>
                           (let self3 = self2\<lparr>sql_fields := fs, time_reopen := cfg_time_reopen ienv\<rparr>;
                                self4 = (if flush_lines self3 = -1
                                         then self3\<lparr>flush_lines := cfg_flush_lines ienv\<rparr>
                                         else self3);
                                self5 = (if flags self4 AND AFSQL_DDF_EXPLICIT_COMMITS \<noteq> 0
                                            \<and> flush_lines self4 > 0
                                         then self4\<lparr>flush_lines_queued := 0\<rparr>
                                         else self4)
                            in if \<not> dbi_initialized
                               then
                                 (if dbi_initialize_r ienv < 0 then (False, self5, False)
                                  else if dbi_initialize_r ienv = 0 then (False, self5, False)
                                  else (True, self5, True))
                               else (True, self5, dbi_initialized))))))"

section \<open>The host's entry to the queue\<close>

text \<open>\<open>afsql_dd_queue\<close> (lines 1368-1380): the host appends a message to the queue.\<close>

definition afsql_dd_queue :: "afsql_dest_driver \<Rightarrow> log_message \<Rightarrow> afsql_dest_driver" where
  "afsql_dd_queue self msg = self\<lparr>queue := log_queue_push_tail (queue self) msg\<rparr>"

chapter \<open>Notions of the specification\<close>

section \<open>The identifier grammar\<close>

text \<open>
  The identifier grammar in the words of the specification: a letter, an underscore or a
  dot at any position, a digit from position 1 on.
\<close>

definition ascii_digits :: "char list" where
  "ascii_digits = ''0123456789''"

definition ascii_letters :: "char list" where
  "ascii_letters = ''abcdefghijklmnopqrstuvwxyzABCDEFGHIJKLMNOPQRSTUVWXYZ''"

definition in_identifier_grammar :: "nat \<Rightarrow> char \<Rightarrow> bool" where
  "in_identifier_grammar i c =
     (c \<in> set ascii_letters \<or> c = CHR ''_'' \<or> c = CHR ''.''
      \<or> (1 \<le> i \<and> c \<in> set ascii_digits))"

definition identifier_accepted :: "string \<Rightarrow> bool" where
  "identifier_accepted token =
     list_all (\<lambda>(i, c). in_identifier_grammar i c) (enumerate 0 token)"

definition sanitized :: "string \<Rightarrow> string" where
  "sanitized token =
     map (\<lambda>(i, c). if in_identifier_grammar i c then c else CHR ''_'') (enumerate 0 token)"

section \<open>The lists of an INSERT statement, in the words of the specification\<close>

text \<open>A list of strings with the separator between consecutive entries and nowhere
  else.\<close>

fun join_with :: "string \<Rightarrow> string list \<Rightarrow> string" where
  "join_with sep [] = []"
| "join_with sep [x] = x"
| "join_with sep (x # y # ys) = x @ sep @ join_with sep (y # ys)"

text \<open>The fields that are not marked \<open>AFSQL_FF_DEFAULT\<close>, their names, and their
  values as the statement writes them.\<close>

definition inserted_fields :: "afsql_field list \<Rightarrow> afsql_field list" where
  "inserted_fields fs = filter (\<lambda>f. fld_flags f AND AFSQL_FF_DEFAULT = 0) fs"

definition insert_column_list :: "afsql_dest_driver \<Rightarrow> string list" where
  "insert_column_list self = map fld_name (inserted_fields (sql_fields self))"

definition insert_value_list :: "dbi_env \<Rightarrow> afsql_dest_driver \<Rightarrow> log_message \<Rightarrow> string list" where
  "insert_value_list env self msg =
     map (\<lambda>f. insert_command_value env self msg (the (fld_value f)))
       (inserted_fields (sql_fields self))"


section \<open>The short index name\<close>

text \<open>The short index name for Oracle: the digest of \<open>table_column\<close> in ASCII hex, cut
  to 30 characters, the first one overwritten by \<open>i\<close>.\<close>

definition hex_digits :: "char list" where
  "hex_digits = ''0123456789abcdef''"

definition oracle_long_index_name :: "dbi_env \<Rightarrow> string \<Rightarrow> string \<Rightarrow> string" where
  "oracle_long_index_name env tab column =
     (take 30 (concat (map format_hex_byte (md5_bytes (MD5 env (tab @ ''_'' @ column))))))
       [0 := CHR ''i'']"

section \<open>Configured destinations\<close>

text \<open>The driver structures \<open>afsql_dd_init\<close> can be handed: what \<open>afsql_dd_new\<close> returns,
  changed by any number of calls of the setters.\<close>

inductive configured :: "afsql_dest_driver \<Rightarrow> bool" where
  new: "configured afsql_dd_new"
| set_type: "configured self \<Longrightarrow> configured (afsql_dd_set_type self t)"
| set_table: "configured self \<Longrightarrow> configured (afsql_dd_set_table self t)"
| set_columns: "configured self \<Longrightarrow> configured (afsql_dd_set_columns self cs)"
| set_indexes: "configured self \<Longrightarrow> configured (afsql_dd_set_indexes self ixs)"
| set_values: "configured self \<Longrightarrow> configured (afsql_dd_set_values self vs)"
| set_null_value: "configured self \<Longrightarrow> configured (afsql_dd_set_null_value self n)"
| set_retries: "configured self \<Longrightarrow> configured (afsql_dd_set_retries self k)"
| set_flush_lines: "configured self \<Longrightarrow> configured (afsql_dd_set_flush_lines self k)"
| set_session_statements:
    "configured self \<Longrightarrow> configured (afsql_dd_set_session_statements self sts)"
| set_flags: "configured self \<Longrightarrow> configured (afsql_dd_set_flags self f)"

section \<open>The states the destination reaches\<close>

text \<open>
  The states reached from a state \<open>s\<close> by the database thread and the host: the steps
  of the main loop (the idle flush, the insertion with its failure handling), the
  insertions of the final loop (lines 1101-1107), the final flush, the disconnect at the
  exit, and the host's pushes to the queue, in any order and number.
\<close>

inductive reaches :: "dbi_env \<Rightarrow> afsql_dest_driver \<Rightarrow> afsql_dest_driver \<Rightarrow> bool"
  for env :: dbi_env and s :: afsql_dest_driver where
  start: "reaches env s s"
| idle_flush: "reaches env s s' \<Longrightarrow> reaches env s (db_thread_idle_flush env s')"
| insert: "reaches env s s' \<Longrightarrow> reaches env s (db_thread_insert env s')"
| final_insert: "reaches env s s' \<Longrightarrow> reaches env s (snd (afsql_dd_insert_db env s'))"
| final_flush: "reaches env s s' \<Longrightarrow> reaches env s (db_thread_final_flush env s')"
| disconnect: "reaches env s s' \<Longrightarrow> reaches env s (afsql_dd_disconnect s')"
| pushed: "reaches env s s' \<Longrightarrow> reaches env s (afsql_dd_queue s' msg)"

text \<open>What every step keeps: the flags, the flush lines, and a flush counter that is not
  negative.\<close>

definition keeps_counting :: "afsql_dest_driver \<Rightarrow> afsql_dest_driver \<Rightarrow> bool" where
  "keeps_counting s s' =
     (flags s' = flags s \<and> flush_lines s' = flush_lines s
      \<and> (0 \<le> flush_lines_queued s \<longrightarrow> 0 \<le> flush_lines_queued s'))"

section \<open>A message whose INSERT keeps failing\<close>

text \<open>
  A call of \<open>afsql_dd_insert_db\<close> in which the INSERT of the message \<open>m\<close> is sent and
  fails, and the ping that follows finds the connection alive.
\<close>

definition insert_fails_alive :: "dbi_env \<Rightarrow> afsql_dest_driver \<Rightarrow> log_message \<Rightarrow> bool" where
  "insert_fails_alive env self m =
     (case insert_attempt env self of
        None \<Rightarrow> False
      | Some (msg, tab, self3) \<Rightarrow>
          msg = m
          \<and> dbi_conn_query env (dbi_calls self3)
                (afsql_dd_build_insert_command env self3 msg tab) = None
          \<and> dbi_conn_ping env (dbi_calls self3 + 1))"

text \<open>
  \<open>failed_rounds env m s0 k s\<close>: the state \<open>s\<close> is reached from \<open>s0\<close> by \<open>k\<close> rounds
  of the thread's insertion step, in each of which the INSERT of \<open>m\<close> is sent and fails
  with the connection alive; between the rounds the host may push messages to the queue.
\<close>

inductive failed_rounds ::
  "dbi_env \<Rightarrow> log_message \<Rightarrow> afsql_dest_driver \<Rightarrow> nat \<Rightarrow> afsql_dest_driver \<Rightarrow> bool"
  for env :: dbi_env and m :: log_message and s0 :: afsql_dest_driver where
  start: "failed_rounds env m s0 0 s0"
| round: "failed_rounds env m s0 k s \<Longrightarrow> insert_fails_alive env s m \<Longrightarrow>
          failed_rounds env m s0 (Suc k) (db_thread_insert env s)"
| pushed: "failed_rounds env m s0 k s \<Longrightarrow> failed_rounds env m s0 k (afsql_dd_queue s msg)"





chapter \<open>Sample inputs\<close>

section \<open>Collaborators and destinations\<close>

text \<open>
  Concrete collaborators and states on which the theorems below are instantiated. The
  sample template engine renders \<open>$NAME\<close> as the value of \<open>NAME\<close> in the message and
  any other template as its own text; the sample driver accepts every statement but
  those of the list \<open>failing\<close>, answers pings with \<open>alive\<close>, and quotes a string by single
  quotes around it.
\<close>

definition sample_format :: "log_template \<Rightarrow> log_message \<Rightarrow> ltz \<Rightarrow> int \<Rightarrow> string" where
  "sample_format tmpl msg tz n =
     (case (tmpl, msg) of
        (c # name, LogMessage kvs) \<Rightarrow>
          (if c = CHR ''$'' then (case map_of kvs name of Some v \<Rightarrow> v | None \<Rightarrow> []) else tmpl)
      | ([], m) \<Rightarrow> [])"

definition sample_env :: "string list \<Rightarrow> bool \<Rightarrow> bool \<Rightarrow> dbi_env" where
  "sample_env failing alive ssl =
     \<lparr> log_template_format = sample_format,
       dbi_conn_new_r = (\<lambda>n t. True),
       dbi_conn_connect = (\<lambda>n. True),
       dbi_conn_query = (\<lambda>n q. if q \<in> set failing then None else Some []),
       dbi_conn_ping = (\<lambda>n. alive),
       dbi_conn_quote_string_copy = (\<lambda>v. Some ([CHR 0x27] @ v @ [CHR 0x27])),
       MD5 = (\<lambda>v. 0x0123456789abcdeffedcba9876543210),
       ENABLE_SSL = ssl \<rparr>"

definition sample_msg :: log_message where
  "sample_msg = LogMessage [(''MSG'', ''hello''), (''HOST'', ''-'')]"

definition sample_init_env :: init_env where
  "sample_init_env =
     \<lparr> server_mode = True, log_dest_driver_init_method = True,
       cfg_persist_config_fetch = 0, init_sequence_number = 1,
       log_dest_driver_acquire_queue = Some \<lparr>q_items = [], q_backlog = [], q_use_backlog = False\<rparr>,
       cfg_time_reopen = 60, cfg_flush_lines = 0, dbi_initialize_r = 1 \<rparr>"

text \<open>A destination as the configuration parser leaves it: three columns, the second
  taken from the database default, with the given flush lines and flags.\<close>

definition sample_config :: "int \<Rightarrow> 32 word \<Rightarrow> afsql_dest_driver" where
  "sample_config n f =
     afsql_dd_set_flags
       (afsql_dd_set_flush_lines
         (afsql_dd_set_null_value
           (afsql_dd_set_indexes
             (afsql_dd_set_values
               (afsql_dd_set_columns afsql_dd_new [''msg'', ''id int'', ''host varchar(32)''])
               [Value_template ''$MSG'', AFSQL_COLUMN_DEFAULT, Value_template ''$HOST''])
             [])
           ''-'')
         n)
       f"

text \<open>The destination after \<open>afsql_dd_init\<close>, with the messages \<open>ms\<close> waiting in its
  queue; and the same after the thread has inserted the first of two messages, in a
  transaction that commits every two lines.\<close>

definition sample_running :: "int \<Rightarrow> 32 word \<Rightarrow> log_message list \<Rightarrow> afsql_dest_driver" where
  "sample_running n f ms =
     (case afsql_dd_init sample_init_env False (sample_config n f) of
        (ok, self, initialized) \<Rightarrow> self\<lparr>queue := (queue self)\<lparr>q_items := ms\<rparr>\<rparr>)"

definition sample_in_transaction :: afsql_dest_driver where
  "sample_in_transaction =
     db_thread_insert (sample_env [] True True)
       (sample_running 2 AFSQL_DDF_EXPLICIT_COMMITS [sample_msg, sample_msg])"

section \<open>A driver that refuses one statement\<close>




chapter \<open>Properties\<close>

section \<open>Character ranges\<close>

lemma char_between:
  assumes "hi < 256"
  shows "(lo \<le> (of_char c :: nat) \<and> of_char c \<le> hi) = (c \<in> char_of ` {lo..hi})"
proof
  assume "lo \<le> (of_char c :: nat) \<and> of_char c \<le> hi"
  then have "of_char c \<in> {lo..hi}" by simp
  then have "char_of (of_char c :: nat) \<in> char_of ` {lo..hi}" by (rule imageI)
  then show "c \<in> char_of ` {lo..hi}" by simp
next
  assume "c \<in> char_of ` {lo..hi}"
  then obtain n where n: "n \<in> {lo..hi}" "c = char_of n" by auto
  then have "of_char c = n" using assms by simp
  then show "lo \<le> (of_char c :: nat) \<and> of_char c \<le> hi" using n by simp
qed

lemma gchar_between_nat:
  assumes "hi < 128"
  shows "(int lo \<le> gchar c \<and> gchar c \<le> int hi) = (lo \<le> (of_char c :: nat) \<and> of_char c \<le> hi)"
proof -
  define n :: nat where "n = of_char c"
  have n: "n < 256" by (simp add: n_def)
  have g: "gchar c = (if n < 128 then int n else int n - 256)"
    by (simp add: gchar_def n_def)
  have "(int lo \<le> gchar c \<and> gchar c \<le> int hi) = (lo \<le> n \<and> n \<le> hi)"
    unfolding g using assms n by (cases "n < 128") auto
  then show ?thesis by (simp add: n_def)
qed

lemma gchar_between:
  assumes "hi < 128"
  shows "(int lo \<le> gchar c \<and> gchar c \<le> int hi) = (c \<in> char_of ` {lo..hi})"
  using gchar_between_nat [OF assms, of lo c] char_between [of hi lo c] assms by simp

lemma digits_image: "char_of ` {48..57::nat} = set ascii_digits"
  by code_simp

lemma lower_image: "char_of ` {97..122::nat} = set ''abcdefghijklmnopqrstuvwxyz''"
  by code_simp

lemma upper_image: "char_of ` {65..90::nat} = set ''ABCDEFGHIJKLMNOPQRSTUVWXYZ''"
  by code_simp

lemma is_digit_iff:
  "(gchar c \<ge> gchar CHR ''0'' \<and> gchar c \<le> gchar CHR ''9'') = (c \<in> set ascii_digits)"
  using gchar_between [of 57 48 c] by (simp add: digits_image gchar_def)

lemma is_lower_iff:
  "(gchar c \<ge> gchar CHR ''a'' \<and> gchar c \<le> gchar CHR ''z'')
     = (c \<in> set ''abcdefghijklmnopqrstuvwxyz'')"
  using gchar_between [of 122 97 c] by (simp add: lower_image gchar_def)

lemma is_upper_iff:
  "(gchar CHR ''A'' \<le> gchar c \<and> gchar c \<le> gchar CHR ''Z'')
     = (c \<in> set ''ABCDEFGHIJKLMNOPQRSTUVWXYZ'')"
  using gchar_between [of 90 65 c] by (simp add: upper_image gchar_def)

lemma letters_split:
  "(c \<in> set ascii_letters)
     = (c \<in> set ''abcdefghijklmnopqrstuvwxyz'' \<or> c \<in> set ''ABCDEFGHIJKLMNOPQRSTUVWXYZ'')"
  by (auto simp: ascii_letters_def)

lemma tolower_letter_iff:
  "(gchar (g_ascii_tolower c) \<ge> gchar CHR ''a'' \<and> gchar (g_ascii_tolower c) \<le> gchar CHR ''z'')
     = (c \<in> set ascii_letters)"
proof (cases "gchar CHR ''A'' \<le> gchar c \<and> gchar c \<le> gchar CHR ''Z''")
  case True
  then have n: "65 \<le> (of_char c :: nat) \<and> (of_char c :: nat) \<le> 90"
    using gchar_between_nat [of 90 65 c] by (simp add: gchar_def)
  have low: "g_ascii_tolower c = char_of (of_char c + (32::nat))"
    using True by (simp add: g_ascii_tolower_def)
  have "(of_char (char_of (of_char c + (32::nat))) :: nat) = of_char c + 32"
    using n by simp
  then have "97 \<le> (of_char (g_ascii_tolower c) :: nat) \<and> (of_char (g_ascii_tolower c) :: nat) \<le> 122"
    using n low by simp
  then have "gchar (g_ascii_tolower c) \<ge> gchar CHR ''a'' \<and> gchar (g_ascii_tolower c) \<le> gchar CHR ''z''"
    using gchar_between_nat [of 122 97 "g_ascii_tolower c"] by (simp add: gchar_def)
  moreover have "c \<in> set ascii_letters"
    using True by (simp only: is_upper_iff letters_split) simp
  ultimately show ?thesis by simp
next
  case False
  then have "g_ascii_tolower c = c" unfolding g_ascii_tolower_def by (rule if_not_P)
  moreover have "(c \<in> set ascii_letters) = (c \<in> set ''abcdefghijklmnopqrstuvwxyz'')"
    using False by (simp only: is_upper_iff letters_split) simp
  ultimately show ?thesis by (simp only: is_lower_iff)
qed

lemma source_test_iff:
  "(c = CHR ''.'' \<or> c = CHR ''_''
     \<or> (i \<noteq> 0 \<and> gchar c \<ge> gchar CHR ''0'' \<and> gchar c \<le> gchar CHR ''9'')
     \<or> (gchar (g_ascii_tolower c) \<ge> gchar CHR ''a''
          \<and> gchar (g_ascii_tolower c) \<le> gchar CHR ''z''))
   = in_identifier_grammar i c"
  unfolding tolower_letter_iff in_identifier_grammar_def
  using is_digit_iff [of c] by auto

lemma check_from_sanitize:
  "check_sql_identifier_from i token True
     = (True, map (\<lambda>(i, c). if in_identifier_grammar i c then c else CHR ''_'') (enumerate i token))"
proof (induction token arbitrary: i)
  case Nil
  show ?case by simp
next
  case (Cons c cs)
  show ?case
    by (simp only: check_sql_identifier_from.simps source_test_iff Cons.IH enumerate_simps)
       simp
qed

lemma check_from_strict:
  "check_sql_identifier_from i token False
     = (list_all (\<lambda>(i, c). in_identifier_grammar i c) (enumerate i token), token)"
proof (induction token arbitrary: i)
  case Nil
  show ?case by simp
next
  case (Cons c cs)
  show ?case
    by (simp only: check_sql_identifier_from.simps source_test_iff Cons.IH enumerate_simps)
       simp
qed

lemma sanitized_in_grammar:
  "list_all (\<lambda>(i, c). in_identifier_grammar i c)
     (enumerate i (map (\<lambda>(i, c). if in_identifier_grammar i c then c else CHR ''_'') (enumerate i token)))"
  by (induction token arbitrary: i) (auto simp: in_identifier_grammar_def)

lemma in_grammar_fixed:
  "list_all (\<lambda>(i, c). in_identifier_grammar i c) (enumerate i token) \<Longrightarrow>
   map (\<lambda>(i, c). if in_identifier_grammar i c then c else CHR ''_'') (enumerate i token) = token"
  by (induction token arbitrary: i) auto

lemma check_port_iff: "afsql_dd_check_port port = list_all (\<lambda>c. c \<in> set ascii_digits) port"
proof (induction port)
  case Nil show ?case by simp
next
  case (Cons c cs)
  have "(gchar c < gchar CHR ''0'' \<or> gchar c > gchar CHR ''9'') = (c \<notin> set ascii_digits)"
    using is_digit_iff [of c] by auto
  then show ?case using Cons.IH by (simp only: afsql_dd_check_port.simps) simp
qed

section \<open>Port validation\<close>

text \<open>
  Claim C10. \<open>afsql_dd_check_port\<close> returns TRUE exactly when every byte of the string is
  one of the ASCII digits \<open>0\<close> to \<open>9\<close>; the empty string has no byte to reject, so it
  passes.
\<close>

theorem check_port_digits_only:
  "afsql_dd_check_port port = (\<forall>c \<in> set port. c \<in> set ascii_digits)
   \<and> afsql_dd_check_port [] = True"
  by (simp add: check_port_iff list_all_iff)

theorem check_port_digits_only_witness:
  "afsql_dd_check_port ''5432'' = True \<and> afsql_dd_check_port ''54a2'' = False
   \<and> afsql_dd_check_port [] = True"
  using check_port_digits_only [of "''5432''"] check_port_digits_only [of "''54a2''"]
  by (simp add: ascii_digits_def)

section \<open>The identifier check\<close>

text \<open>
  Claim C7. Without \<open>sanitize\<close> the check returns TRUE exactly for the tokens all of whose
  bytes are in the grammar (letters, underscore and dot at every position, digits from
  position 1 on) and leaves the token as it was; with \<open>sanitize\<close> it returns TRUE for
  every token and leaves the token with the underscore in place of each byte outside the
  grammar, every other byte unchanged.
\<close>

theorem check_sql_identifier_grammar:
  "afsql_dd_check_sql_identifier token False = (identifier_accepted token, token)
   \<and> afsql_dd_check_sql_identifier token True = (True, sanitized token)
   \<and> identifier_accepted token = (\<forall>i<length token. in_identifier_grammar i (token ! i))
   \<and> length (sanitized token) = length token
   \<and> (\<forall>i<length token. sanitized token ! i
         = (if in_identifier_grammar i (token ! i) then token ! i else CHR ''_''))"
  by (auto simp: afsql_dd_check_sql_identifier_def check_from_strict check_from_sanitize
        identifier_accepted_def sanitized_def list_all_length nth_enumerate_eq)

theorem check_sql_identifier_grammar_witness:
  "afsql_dd_check_sql_identifier ''9a-b c9.X_'' False = (False, ''9a-b c9.X_'')
   \<and> afsql_dd_check_sql_identifier ''9a-b c9.X_'' True = (True, ''_a_b_c9.X_'')
   \<and> afsql_dd_check_sql_identifier ''t9.Col_1'' False = (True, ''t9.Col_1'')"
  using check_sql_identifier_grammar [of "''9a-b c9.X_''"]
    check_sql_identifier_grammar [of "''t9.Col_1''"]
  by (simp add: identifier_accepted_def sanitized_def in_identifier_grammar_def
        ascii_letters_def ascii_digits_def)

text \<open>
  Claim C9. Sanitizing is idempotent: a second sanitizing run over the token the first
  one left changes no byte.
\<close>

theorem sanitize_idempotent:
  "snd (afsql_dd_check_sql_identifier (snd (afsql_dd_check_sql_identifier s True)) True)
     = snd (afsql_dd_check_sql_identifier s True)"
  unfolding afsql_dd_check_sql_identifier_def check_from_sanitize snd_conv
  by (rule in_grammar_fixed) (rule sanitized_in_grammar)

section \<open>Commit and rollback\<close>

text \<open>
  Claim C3. \<open>afsql_dd_commit_transaction\<close> returns TRUE and leaves the state as it is
  when no transaction is active. With a transaction active it sends \<open>COMMIT\<close>; when that
  succeeds, \<open>log_queue_ack_backlog\<close> is called with the value of \<open>flush_lines_queued\<close>,
  the counter is set to 0 and \<open>transaction_active\<close> is cleared, and the call returns
  TRUE; when it fails, the whole backlog is rewound to the head of the queue, the counter
  is set to 0, \<open>transaction_active\<close> stays as it was, and the call returns FALSE.
\<close>

theorem commit_transaction_cases:
  "(\<not> transaction_active self \<longrightarrow> afsql_dd_commit_transaction env self = (True, self))
   \<and> (transaction_active self \<and> dbi_conn_query env (dbi_calls self) ''COMMIT'' \<noteq> None \<longrightarrow>
        afsql_dd_commit_transaction env self
          = (True, self\<lparr>dbi_calls := dbi_calls self + 1,
                        queries := queries self @ [''COMMIT''],
                        queue := log_queue_ack_backlog (queue self) (flush_lines_queued self),
                        flush_lines_queued := 0,
                        transaction_active := False\<rparr>))
   \<and> (transaction_active self \<and> dbi_conn_query env (dbi_calls self) ''COMMIT'' = None \<longrightarrow>
        afsql_dd_commit_transaction env self
          = (False, self\<lparr>dbi_calls := dbi_calls self + 1,
                         queries := queries self @ [''COMMIT''],
                         queue := log_queue_rewind_backlog_all (queue self),
                         flush_lines_queued := 0\<rparr>)
        \<and> transaction_active (snd (afsql_dd_commit_transaction env self)) = transaction_active self
        \<and> q_backlog (queue (snd (afsql_dd_commit_transaction env self))) = []
        \<and> q_items (queue (snd (afsql_dd_commit_transaction env self)))
             = q_backlog (queue self) @ q_items (queue self))"
  by (auto simp: afsql_dd_commit_transaction_def afsql_dd_run_query_def
        afsql_dd_handle_transaction_error_def log_queue_rewind_backlog_all_def)

theorem commit_transaction_cases_witness:
  "afsql_dd_commit_transaction (sample_env [] True True) afsql_dd_new = (True, afsql_dd_new)
   \<and> fst (afsql_dd_commit_transaction (sample_env [] True True) sample_in_transaction)
   \<and> flush_lines_queued (snd (afsql_dd_commit_transaction (sample_env [] True True) sample_in_transaction)) = 0
   \<and> \<not> transaction_active (snd (afsql_dd_commit_transaction (sample_env [] True True) sample_in_transaction))
   \<and> \<not> fst (afsql_dd_commit_transaction (sample_env [''COMMIT''] True True) sample_in_transaction)
   \<and> flush_lines_queued (snd (afsql_dd_commit_transaction (sample_env [''COMMIT''] True True) sample_in_transaction)) = 0
   \<and> transaction_active (snd (afsql_dd_commit_transaction (sample_env [''COMMIT''] True True) sample_in_transaction))
   \<and> q_items (queue (snd (afsql_dd_commit_transaction (sample_env [''COMMIT''] True True) sample_in_transaction)))
        = [sample_msg, sample_msg]"
proof -
  have n: "\<not> transaction_active afsql_dd_new" by (simp add: afsql_dd_new_def)
  have a: "transaction_active sample_in_transaction" by code_simp
  have ok: "dbi_conn_query (sample_env [] True True) (dbi_calls sample_in_transaction) ''COMMIT'' \<noteq> None"
    by (simp add: sample_env_def)
  have ko: "dbi_conn_query (sample_env [''COMMIT''] True True) (dbi_calls sample_in_transaction) ''COMMIT'' = None"
    by (simp add: sample_env_def)
  have q: "q_backlog (queue sample_in_transaction) @ q_items (queue sample_in_transaction)
             = [sample_msg, sample_msg]" by code_simp
  note c1 = commit_transaction_cases [of afsql_dd_new "sample_env [] True True"]
  note c2 = commit_transaction_cases [of sample_in_transaction "sample_env [] True True"]
  note c3 = commit_transaction_cases [of sample_in_transaction "sample_env [''COMMIT''] True True"]
  have 1: "afsql_dd_commit_transaction (sample_env [] True True) afsql_dd_new = (True, afsql_dd_new)"
    using c1 n by blast
  have 2: "afsql_dd_commit_transaction (sample_env [] True True) sample_in_transaction
          = (True, sample_in_transaction\<lparr>dbi_calls := dbi_calls sample_in_transaction + 1,
                        queries := queries sample_in_transaction @ [''COMMIT''],
                        queue := log_queue_ack_backlog (queue sample_in_transaction) (flush_lines_queued sample_in_transaction),
                        flush_lines_queued := 0,
                        transaction_active := False\<rparr>)"
    using c2 a ok by blast
  have 3: "afsql_dd_commit_transaction (sample_env [''COMMIT''] True True) sample_in_transaction
          = (False, sample_in_transaction\<lparr>dbi_calls := dbi_calls sample_in_transaction + 1,
                         queries := queries sample_in_transaction @ [''COMMIT''],
                         queue := log_queue_rewind_backlog_all (queue sample_in_transaction),
                         flush_lines_queued := 0\<rparr>)"
    using c3 a ko by blast
  show ?thesis
    unfolding 1 2 3 using a q by (simp add: log_queue_rewind_backlog_all_def)
qed

lemma commit_failed:
  assumes "afsql_dd_commit_transaction env self = (False, self1)"
  shows "transaction_active self1 \<and> flush_lines_queued self1 = 0"
  using assms
  by (auto simp: afsql_dd_commit_transaction_def afsql_dd_run_query_def
        afsql_dd_handle_transaction_error_def split: if_splits option.splits)

lemma rollback_state:
  "\<not> transaction_active (snd (afsql_dd_rollback_transaction env self))
   \<and> flush_lines_queued (snd (afsql_dd_rollback_transaction env self)) = flush_lines_queued self"
  by (simp add: afsql_dd_rollback_transaction_def afsql_dd_run_query_def)

text \<open>
  Claim C4. After a failed commit and the rollback its caller then attempts,
  \<open>flush_lines_queued\<close> is 0 and \<open>transaction_active\<close> is FALSE, whatever the \<open>ROLLBACK\<close>
  statement returns: the rollback clears the flag before it sends the statement. This is
  so at each of the four places that call the commit: \<open>afsql_dd_begin_new_transaction\<close>,
  the idle flush and the final flush of the thread, and the commit at the flush
  threshold in \<open>afsql_dd_insert_db\<close>.
\<close>

theorem commit_failure_then_rollback:
  assumes "afsql_dd_commit_transaction env self = (False, self1)"
  shows "flush_lines_queued (snd (afsql_dd_rollback_transaction env self1)) = 0
     \<and> \<not> transaction_active (snd (afsql_dd_rollback_transaction env self1))
     \<and> snd (afsql_dd_rollback_transaction env self1)
         = self1\<lparr>transaction_active := False, dbi_calls := dbi_calls self1 + 1,
                 queries := queries self1 @ [''ROLLBACK'']\<rparr>
     \<and> afsql_dd_begin_new_transaction env self
         = (False, snd (afsql_dd_rollback_transaction env self1))
     \<and> (flush_lines_queued self > 0 \<longrightarrow>
          db_thread_final_flush env self = snd (afsql_dd_rollback_transaction env self1))
     \<and> (flush_lines_queued self > 0 \<longrightarrow>
          flush_lines_queued (db_thread_idle_flush env self) = 0
          \<and> \<not> transaction_active (db_thread_idle_flush env self))
     \<and> (\<forall>s msg. self = s\<lparr>flush_lines_queued := flush_lines_queued s + 1\<rparr>
            \<and> flush_lines_queued s \<noteq> -1 \<and> afsql_dd_should_commit_transaction self \<longrightarrow>
          insert_db_after_query env s msg True
            = (False, snd (afsql_dd_rollback_transaction env self1)))"
proof -
  have f: "transaction_active self1" "flush_lines_queued self1 = 0"
    using commit_failed [OF assms] by simp_all
  have act: "transaction_active self"
    using assms by (auto simp: afsql_dd_commit_transaction_def split: if_splits)
  have r: "snd (afsql_dd_rollback_transaction env self1)
         = self1\<lparr>transaction_active := False, dbi_calls := dbi_calls self1 + 1,
                 queries := queries self1 @ [''ROLLBACK'']\<rparr>"
    using f by (simp add: afsql_dd_rollback_transaction_def afsql_dd_run_query_def)
  have a: "flush_lines_queued (snd (afsql_dd_rollback_transaction env self1)) = 0"
    using f rollback_state [of env self1] by simp
  have b: "\<not> transaction_active (snd (afsql_dd_rollback_transaction env self1))"
    using rollback_state [of env self1] by simp
  have c: "afsql_dd_begin_new_transaction env self
         = (False, snd (afsql_dd_rollback_transaction env self1))"
    using act assms by (simp add: afsql_dd_begin_new_transaction_def)
  have d: "flush_lines_queued self > 0 \<longrightarrow>
          db_thread_final_flush env self = snd (afsql_dd_rollback_transaction env self1)"
    using assms by (simp add: db_thread_final_flush_def)
  have e: "flush_lines_queued self > 0 \<longrightarrow>
          flush_lines_queued (db_thread_idle_flush env self) = 0
          \<and> \<not> transaction_active (db_thread_idle_flush env self)"
    using assms a b
    by (cases "afsql_dd_rollback_transaction env self1")
       (auto simp: db_thread_idle_flush_def afsql_dd_suspend_def afsql_dd_disconnect_def
          split: bool.splits)
  have g: "\<forall>s msg. self = s\<lparr>flush_lines_queued := flush_lines_queued s + 1\<rparr>
            \<and> flush_lines_queued s \<noteq> -1 \<and> afsql_dd_should_commit_transaction self \<longrightarrow>
          insert_db_after_query env s msg True
            = (False, snd (afsql_dd_rollback_transaction env self1))"
    using assms
    by (auto simp: insert_db_after_query_def Let_def)
  show ?thesis using a b r c d e g by blast
qed

theorem commit_failure_then_rollback_witness:
  "\<not> fst (afsql_dd_commit_transaction (sample_env [''COMMIT'', ''ROLLBACK''] True True) sample_in_transaction)
   \<and> flush_lines_queued (snd (afsql_dd_rollback_transaction (sample_env [''COMMIT'', ''ROLLBACK''] True True)
        (snd (afsql_dd_commit_transaction (sample_env [''COMMIT'', ''ROLLBACK''] True True) sample_in_transaction)))) = 0
   \<and> \<not> transaction_active (snd (afsql_dd_rollback_transaction (sample_env [''COMMIT'', ''ROLLBACK''] True True)
        (snd (afsql_dd_commit_transaction (sample_env [''COMMIT'', ''ROLLBACK''] True True) sample_in_transaction))))
   \<and> flush_lines_queued (db_thread_idle_flush (sample_env [''COMMIT'', ''ROLLBACK''] True True) sample_in_transaction) = 0
   \<and> \<not> transaction_active (db_thread_idle_flush (sample_env [''COMMIT'', ''ROLLBACK''] True True) sample_in_transaction)"
proof -
  let ?env = "sample_env [''COMMIT'', ''ROLLBACK''] True True"
  let ?s1 = "sample_in_transaction\<lparr>dbi_calls := dbi_calls sample_in_transaction + 1,
                         queries := queries sample_in_transaction @ [''COMMIT''],
                         queue := log_queue_rewind_backlog_all (queue sample_in_transaction),
                         flush_lines_queued := 0\<rparr>"
  have a: "transaction_active sample_in_transaction" by code_simp
  have p: "flush_lines_queued sample_in_transaction > 0" by code_simp
  have ko: "dbi_conn_query ?env (dbi_calls sample_in_transaction) ''COMMIT'' = None"
    by (simp add: sample_env_def)
  have c: "afsql_dd_commit_transaction ?env sample_in_transaction = (False, ?s1)"
    using a ko
    by (simp add: afsql_dd_commit_transaction_def afsql_dd_run_query_def
          afsql_dd_handle_transaction_error_def)
  have "flush_lines_queued (snd (afsql_dd_rollback_transaction ?env ?s1)) = 0
     \<and> \<not> transaction_active (snd (afsql_dd_rollback_transaction ?env ?s1))
     \<and> flush_lines_queued (db_thread_idle_flush ?env sample_in_transaction) = 0
     \<and> \<not> transaction_active (db_thread_idle_flush ?env sample_in_transaction)"
    using commit_failure_then_rollback [OF c] p by blast
  then show ?thesis unfolding c by simp
qed

section \<open>The INSERT statement\<close>

lemma default_bit: "(w AND AFSQL_FF_DEFAULT = AFSQL_FF_DEFAULT) = (w AND AFSQL_FF_DEFAULT \<noteq> 0)"
  unfolding AFSQL_FF_DEFAULT_def by (simp add: and_one_eq)

lemma fields_after_defaults_empty:
  "(fields_after_defaults fs = []) = (inserted_fields fs = [])"
  by (auto simp: fields_after_defaults_def inserted_fields_def default_bit
        dropWhile_eq_Nil_conv filter_empty_conv)

lemma join_with_Cons:
  "join_with sep (x # xs) = x @ (if xs \<noteq> [] then sep else []) @ join_with sep xs"
  by (cases xs) simp_all

lemma columns_joined:
  assumes "\<forall>f \<in> set fs. fld_flags f AND AFSQL_FF_DEFAULT = 0 \<longrightarrow> fld_value f \<noteq> None"
  shows "insert_command_columns fs = join_with '', '' (map fld_name (inserted_fields fs))"
  using assms
proof (induction fs)
  case Nil
  show ?case by (simp add: inserted_fields_def)
next
  case (Cons f fs)
  then have ih: "insert_command_columns fs = join_with '', '' (map fld_name (inserted_fields fs))"
    by simp
  show ?case
  proof (cases "fld_flags f AND AFSQL_FF_DEFAULT = 0")
    case True
    then have v: "fld_value f \<noteq> None" using Cons.prems by simp
    have i: "inserted_fields (f # fs) = f # inserted_fields fs"
      using True by (simp add: inserted_fields_def)
    show ?thesis
      using True v ih fields_after_defaults_empty [of fs]
      by (simp add: i join_with_Cons)
  next
    case False
    then have "inserted_fields (f # fs) = inserted_fields fs"
      by (simp add: inserted_fields_def)
    then show ?thesis using False ih by simp
  qed
qed

lemma values_joined:
  assumes "\<forall>f \<in> set fs. fld_flags f AND AFSQL_FF_DEFAULT = 0 \<longrightarrow> fld_value f \<noteq> None"
  shows "insert_command_values env self msg fs
     = join_with '', '' (map (\<lambda>f. insert_command_value env self msg (the (fld_value f)))
                           (inserted_fields fs))"
  using assms
proof (induction fs)
  case Nil
  show ?case by (simp add: inserted_fields_def)
next
  case (Cons f fs)
  then have ih: "insert_command_values env self msg fs
     = join_with '', '' (map (\<lambda>f. insert_command_value env self msg (the (fld_value f)))
                           (inserted_fields fs))"
    by simp
  show ?case
  proof (cases "fld_flags f AND AFSQL_FF_DEFAULT = 0")
    case True
    then have v: "fld_value f \<noteq> None" using Cons.prems by simp
    have i: "inserted_fields (f # fs) = f # inserted_fields fs"
      using True by (simp add: inserted_fields_def)
    show ?thesis
      using True v ih fields_after_defaults_empty [of fs]
      by (simp add: i join_with_Cons)
  next
    case False
    then have "inserted_fields (f # fs) = inserted_fields fs"
      by (simp add: inserted_fields_def)
    then show ?thesis using False ih by simp
  qed
qed

lemma init_fields_values:
  "init_fields cols vs = (True, fs) \<Longrightarrow>
   \<forall>f \<in> set fs. fld_flags f AND AFSQL_FF_DEFAULT = 0 \<longrightarrow> fld_value f \<noteq> None"
proof (induction cols vs arbitrary: fs rule: init_fields.induct)
  case (1 col cols v vs)
  then show ?case
    by (auto simp: Let_def zero_field_def AFSQL_FF_DEFAULT_def split: if_splits prod.splits value_spec.splits)
qed simp_all

lemma init_values:
  assumes "sql_fields self = []" and "afsql_dd_init ienv i self = (True, self', i')"
  shows "\<forall>f \<in> set (sql_fields self'). fld_flags f AND AFSQL_FF_DEFAULT = 0 \<longrightarrow> fld_value f \<noteq> None"
proof -
  obtain fs where "init_fields (columns self) (values self) = (True, fs)" "sql_fields self' = fs"
    using assms
    by (auto simp: afsql_dd_init_def Let_def split: if_splits option.splits prod.splits bool.splits)
  then show ?thesis using init_fields_values by blast
qed

text \<open>
  Claim C5. The INSERT statement has a column list and a values list of the same length,
  one entry for each field that is not marked \<open>AFSQL_FF_DEFAULT\<close> and none for the
  marked ones, each list with the comma between consecutive entries only, so with no
  comma at its end. The field array is one in which every unmarked field has a template:
  the arrays that \<open>afsql_dd_init\<close> builds are such (\<open>init_values\<close> above).
\<close>

theorem build_insert_command_lists:
  assumes "\<forall>f \<in> set (sql_fields self). fld_flags f AND AFSQL_FF_DEFAULT = 0 \<longrightarrow> fld_value f \<noteq> None"
  shows "afsql_dd_build_insert_command env self msg tab
           = ''INSERT INTO '' @ tab @ '' ('' @ join_with '', '' (insert_column_list self)
               @ '') VALUES ('' @ join_with '', '' (insert_value_list env self msg) @ '')''
     \<and> length (insert_column_list self) = length (insert_value_list env self msg)
     \<and> insert_column_list self
         = map fld_name (filter (\<lambda>f. fld_flags f AND AFSQL_FF_DEFAULT = 0) (sql_fields self))
     \<and> length (insert_column_list self)
         = length (sql_fields self)
           - length (filter (\<lambda>f. fld_flags f AND AFSQL_FF_DEFAULT \<noteq> 0) (sql_fields self))"
proof -
  have "length (filter (\<lambda>f. fld_flags f AND AFSQL_FF_DEFAULT = 0) (sql_fields self))
        + length (filter (\<lambda>f. fld_flags f AND AFSQL_FF_DEFAULT \<noteq> 0) (sql_fields self))
        = length (sql_fields self)"
    using sum_length_filter_compl [of "\<lambda>f. fld_flags f AND AFSQL_FF_DEFAULT = 0" "sql_fields self"]
    by simp
  then show ?thesis
    using columns_joined [OF assms] values_joined [OF assms, of env self msg]
    by (simp add: afsql_dd_build_insert_command_def insert_column_list_def
          insert_value_list_def inserted_fields_def)
qed

theorem build_insert_command_lists_witness:
  "afsql_dd_build_insert_command (sample_env [] True True) (sample_running 100 0 []) sample_msg ''messages''
     = ''INSERT INTO messages (msg, host) VALUES ('' @ [CHR 0x27] @ ''hello'' @ [CHR 0x27] @ '', NULL)''
   \<and> insert_column_list (sample_running 100 0 []) = [''msg'', ''host'']
   \<and> length (insert_value_list (sample_env [] True True) (sample_running 100 0 []) sample_msg) = 2
   \<and> length (sql_fields (sample_running 100 0 [])) = 3"
proof -
  have wf: "\<forall>f \<in> set (sql_fields (sample_running 100 0 [])).
              fld_flags f AND AFSQL_FF_DEFAULT = 0 \<longrightarrow> fld_value f \<noteq> None"
    by code_simp
  have c: "insert_column_list (sample_running 100 0 []) = [''msg'', ''host'']"
    by code_simp
  have v: "insert_value_list (sample_env [] True True) (sample_running 100 0 []) sample_msg
             = [[CHR 0x27] @ ''hello'' @ [CHR 0x27], ''NULL'']"
    by code_simp
  have n: "length (sql_fields (sample_running 100 0 [])) = 3"
    by code_simp
  show ?thesis
    using build_insert_command_lists [OF wf, of "sample_env [] True True" sample_msg "''messages''"] n
    by (simp add: c v)
qed



section \<open>Index names\<close>

lemma hex_digit_in: "hex_digit n \<in> set hex_digits"
proof -
  have "n mod 16 < length hex_digits" by (simp add: hex_digits_def)
  then have "hex_digits ! (n mod 16) \<in> set hex_digits" by (rule nth_mem)
  then show ?thesis by (simp add: hex_digit_def hex_digits_def)
qed

lemma format_hex_bytes_length: "length (concat (map format_hex_byte bs)) = 2 * length bs"
  by (induction bs) (simp_all add: format_hex_byte_def)

lemma format_hex_bytes_digits: "list_all (\<lambda>c. c \<in> set hex_digits) (concat (map format_hex_byte bs))"
  by (induction bs) (simp_all add: format_hex_byte_def hex_digit_in)

lemma oracle_long_index_name_shape:
  "length (oracle_long_index_name env tab column) = 30
   \<and> hd (oracle_long_index_name env tab column) = CHR ''i''
   \<and> list_all (\<lambda>c. c \<in> set hex_digits) (tl (oracle_long_index_name env tab column))"
proof -
  let ?h = "concat (map format_hex_byte (md5_bytes (MD5 env (tab @ ''_'' @ column))))"
  have "length (md5_bytes (MD5 env (tab @ ''_'' @ column))) = 16"
    by (simp add: md5_bytes_def)
  then have l: "length ?h = 32" by (simp only: format_hex_bytes_length)
  then have l30: "length (take 30 ?h) = 30" by simp
  define t30 where "t30 = take 30 ?h"
  have "length t30 = 30" using l30 by (simp only: t30_def)
  then obtain c cs where t: "t30 = c # cs" by (cases t30) simp_all
  have "list_all (\<lambda>c. c \<in> set hex_digits) ?h" by (rule format_hex_bytes_digits)
  then have "list_all (\<lambda>c. c \<in> set hex_digits) t30"
    unfolding t30_def list_all_iff by (meson in_set_takeD)
  then have "list_all (\<lambda>c. c \<in> set hex_digits) cs" using t by simp
  moreover have "oracle_long_index_name env tab column = t30[0 := CHR ''i'']"
    by (simp add: oracle_long_index_name_def t30_def)
  then have "oracle_long_index_name env tab column = CHR ''i'' # cs"
    using t by simp
  moreover have "length cs = 29" using \<open>length t30 = 30\<close> t by simp
  ultimately show ?thesis by simp
qed

text \<open>
  Claim C8, as stated, at a concrete input: an Oracle destination built without
  \<open>ENABLE_SSL\<close>, a table and a column of more than 25 characters together. No index
  name is derived; the statement handed to the driver is the empty string.
\<close>

theorem create_index_name_counterexample:
  "type (afsql_dd_set_type afsql_dd_new ''oracle'') = s_oracle
   \<and> length ''a_rather_long_table_name'' + length ''column'' > 25
   \<and> afsql_dd_create_index_query (sample_env [] True False) (afsql_dd_set_type afsql_dd_new ''oracle'')
        ''a_rather_long_table_name'' ''column'' = []
   \<and> afsql_dd_create_index_query (sample_env [] True False) (afsql_dd_set_type afsql_dd_new ''oracle'')
        ''a_rather_long_table_name'' ''column''
       \<noteq> ''CREATE INDEX ''
            @ oracle_long_index_name (sample_env [] True False) ''a_rather_long_table_name'' ''column''
            @ '' ON a_rather_long_table_name (column)''"
  by (simp add: afsql_dd_create_index_query_def afsql_dd_set_type_def afsql_dd_new_def
        s_oracle_def sample_env_def)

text \<open>
  Claim C8, amended. For the dialect \<open>oracle\<close>, a table and a column of more than 25
  characters together, and a build with \<open>ENABLE_SSL\<close>, the index is named by the ASCII
  hex of the MD5 digest of \<open>table_column\<close> cut to 30 characters, its first character
  overwritten by \<open>i\<close>: 30 characters, \<open>i\<close> followed by 29 hex digits. In a build without
  \<open>ENABLE_SSL\<close> no statement is built for such a pair. In every other case, the other
  dialects included, the index is named \<open>table_column_idx\<close>.
\<close>

theorem create_index_name:
  "(type self = s_oracle \<and> length tab + length column > 25 \<and> ENABLE_SSL env \<longrightarrow>
      afsql_dd_create_index_query env self tab column
        = ''CREATE INDEX '' @ oracle_long_index_name env tab column
            @ '' ON '' @ tab @ '' ('' @ column @ '')''
      \<and> length (oracle_long_index_name env tab column) = 30
      \<and> hd (oracle_long_index_name env tab column) = CHR ''i''
      \<and> list_all (\<lambda>c. c \<in> set hex_digits) (tl (oracle_long_index_name env tab column)))
   \<and> (type self = s_oracle \<and> length tab + length column > 25 \<and> \<not> ENABLE_SSL env \<longrightarrow>
      afsql_dd_create_index_query env self tab column = [])
   \<and> (\<not> (type self = s_oracle \<and> length tab + length column > 25) \<longrightarrow>
      afsql_dd_create_index_query env self tab column
        = ''CREATE INDEX '' @ tab @ ''_'' @ column @ ''_idx ON '' @ tab @ '' ('' @ column @ '')'')"
  using oracle_long_index_name_shape [of env tab column]
  by (simp add: afsql_dd_create_index_query_def oracle_long_index_name_def
        format_hex_string_def Let_def)

theorem create_index_name_witness:
  "afsql_dd_create_index_query (sample_env [] True True) (afsql_dd_set_type afsql_dd_new ''oracle'')
      ''a_rather_long_table_name'' ''column''
     = ''CREATE INDEX i123456789abcdeffedcba98765432 ON a_rather_long_table_name (column)''
   \<and> afsql_dd_create_index_query (sample_env [] True True) (afsql_dd_set_type afsql_dd_new ''oracle'')
      ''messages'' ''column''
     = ''CREATE INDEX messages_column_idx ON messages (column)''
   \<and> afsql_dd_create_index_query (sample_env [] True True) afsql_dd_new
      ''a_rather_long_table_name'' ''column''
     = ''CREATE INDEX a_rather_long_table_name_column_idx ON a_rather_long_table_name (column)''"
proof -
  let ?o = "afsql_dd_set_type afsql_dd_new ''oracle''"
  let ?env = "sample_env [] True True"
  have t: "type ?o = s_oracle" "type afsql_dd_new \<noteq> s_oracle"
    by (simp_all add: afsql_dd_set_type_def afsql_dd_new_def s_oracle_def)
  have s: "ENABLE_SSL ?env" by (simp add: sample_env_def)
  have n: "oracle_long_index_name ?env ''a_rather_long_table_name'' ''column''
             = ''i123456789abcdeffedcba98765432''"
    by code_simp
  show ?thesis
    using create_index_name [of ?o "''a_rather_long_table_name''" "''column''" ?env]
      create_index_name [of ?o "''messages''" "''column''" ?env]
      create_index_name [of afsql_dd_new "''a_rather_long_table_name''" "''column''" ?env]
      t s
    by (simp add: n)
qed

section \<open>The flush counter after initialization\<close>

lemmas setter_defs =
  afsql_dd_set_type_def afsql_dd_set_table_def afsql_dd_set_columns_def
  afsql_dd_set_indexes_def afsql_dd_set_values_def afsql_dd_set_null_value_def
  afsql_dd_set_retries_def afsql_dd_set_flush_lines_def afsql_dd_set_session_statements_def
  afsql_dd_set_flags_def

lemma configured_invariant:
  "configured self \<Longrightarrow>
     flush_lines_queued self = -1 \<and> sql_fields self = [] \<and> 1 \<le> num_retries self
     \<and> failed_message_counter self = 0 \<and> \<not> transaction_active self"
  by (induction rule: configured.induct)
     (simp_all add: afsql_dd_new_def MAX_FAILED_ATTEMPTS_def setter_defs)

lemma init_flush_lines:
  assumes "afsql_dd_init ienv i self = (True, self', i')"
  shows "flags self' = flags self
     \<and> flush_lines self' = (if flush_lines self = -1 then cfg_flush_lines ienv else flush_lines self)
     \<and> flush_lines_queued self'
         = (if flags self AND AFSQL_DDF_EXPLICIT_COMMITS \<noteq> 0 \<and> flush_lines self' > 0
            then 0 else flush_lines_queued self)"
  using assms
  by (auto simp: afsql_dd_init_def Let_def
        split: if_splits option.splits prod.splits bool.splits)

lemma sample_configured: "configured (sample_config n f)"
  unfolding sample_config_def by (intro configured.intros)

text \<open>
  Claim C1, as stated, at a concrete input: a destination configured with 100 flush
  lines and without the flag \<open>explicit-commits\<close>. After \<open>afsql_dd_init\<close> has returned
  TRUE, \<open>flush_lines\<close> is 100 and \<open>flush_lines_queued\<close> is still \<open>-1\<close>.
\<close>

theorem init_flush_lines_queued_counterexample:
  "fst (afsql_dd_init sample_init_env False (sample_config 100 0))
   \<and> flush_lines (fst (snd (afsql_dd_init sample_init_env False (sample_config 100 0)))) = 100
   \<and> flush_lines_queued (fst (snd (afsql_dd_init sample_init_env False (sample_config 100 0)))) = -1
   \<and> \<not> ((flush_lines (fst (snd (afsql_dd_init sample_init_env False (sample_config 100 0)))) = -1)
         = (flush_lines_queued (fst (snd (afsql_dd_init sample_init_env False (sample_config 100 0)))) = -1))"
  by code_simp

text \<open>Each step of the thread and of the host keeps the flags and the flush lines,
  and never turns a flush counter of 0 or more into a negative one.\<close>

lemma keeps_refl: "keeps_counting s s"
  by (simp add: keeps_counting_def)

lemma keeps_trans: "keeps_counting s s' \<Longrightarrow> keeps_counting s' s'' \<Longrightarrow> keeps_counting s s''"
  by (simp add: keeps_counting_def)

lemma keeps_run_query: "keeps_counting s (snd (afsql_dd_run_query env s q))"
  by (simp add: keeps_counting_def afsql_dd_run_query_def)

lemma keeps_commit: "keeps_counting s (snd (afsql_dd_commit_transaction env s))"
  by (simp add: keeps_counting_def afsql_dd_commit_transaction_def afsql_dd_run_query_def
        afsql_dd_handle_transaction_error_def split: option.splits)

lemma keeps_begin: "keeps_counting s (snd (afsql_dd_begin_transaction env s))"
  by (simp add: keeps_counting_def afsql_dd_begin_transaction_def afsql_dd_run_query_def Let_def)

lemma keeps_rollback: "keeps_counting s (snd (afsql_dd_rollback_transaction env s))"
  by (simp add: keeps_counting_def afsql_dd_rollback_transaction_def afsql_dd_run_query_def)

lemma keeps_begin_new: "keeps_counting s (snd (afsql_dd_begin_new_transaction env s))"
proof -
  obtain b s1 where c: "afsql_dd_commit_transaction env s = (b, s1)" by (cases "afsql_dd_commit_transaction env s")
  have 1: "keeps_counting s s1" using keeps_commit [of s env] c by simp
  show ?thesis
    using c 1 keeps_begin [of s env] keeps_begin [of s1 env] keeps_rollback [of s1 env]
    by (cases b) (auto simp: afsql_dd_begin_new_transaction_def intro: keeps_trans)
qed

lemma keeps_create_index: "keeps_counting s (snd (afsql_dd_create_index env s tab col))"
  by (simp add: keeps_counting_def afsql_dd_create_index_def afsql_dd_run_query_def)

lemma keeps_indexes_of_column: "keeps_counting s (create_indexes_of_column env s tab name ls)"
proof (induction ls arbitrary: s)
  case Nil
  show ?case by (simp add: keeps_refl)
next
  case (Cons l ls)
  show ?case
    using Cons [of "snd (afsql_dd_create_index env s tab name)"] Cons [of s]
      keeps_create_index [of s env tab name]
    by (auto intro: keeps_trans)
qed

lemma keeps_all_indexes: "keeps_counting s (create_all_indexes env s tab ls)"
proof (induction ls arbitrary: s)
  case Nil
  show ?case by (simp add: keeps_refl)
next
  case (Cons l ls)
  show ?case
    using Cons [of "snd (afsql_dd_create_index env s tab l)"] keeps_create_index [of s env tab l]
    by (auto intro: keeps_trans)
qed

lemma keeps_table_fields: "keeps_counting s (snd (validate_table_fields env s tab db_res fs nts))"
proof (induction fs arbitrary: s nts)
  case Nil
  show ?case by (simp add: keeps_refl)
next
  case (Cons f fs)
  show ?case
  proof (cases "fld_name f \<notin> set db_res")
    case False
    then show ?thesis using Cons [of s nts] by simp
  next
    case True
    obtain b s1 where b: "(if \<not> nts then afsql_dd_begin_new_transaction env s else (True, s)) = (b, s1)"
      by (cases "if \<not> nts then afsql_dd_begin_new_transaction env s else (True, s)")
    have 1: "keeps_counting s s1"
      using b keeps_begin_new [of s env] by (auto simp: keeps_refl split: if_splits)
    obtain r s2 where r: "afsql_dd_run_query env s1
        (''ALTER TABLE '' @ tab @ '' ADD '' @ fld_name f @ '' '' @ fld_type f) = (r, s2)"
      by (cases "afsql_dd_run_query env s1
        (''ALTER TABLE '' @ tab @ '' ADD '' @ fld_name f @ '' '' @ fld_type f)")
    have 2: "keeps_counting s1 s2"
      using r keeps_run_query [of s1 env "''ALTER TABLE '' @ tab @ '' ADD '' @ fld_name f @ '' '' @ fld_type f"]
      by simp
    let ?s3 = "if enable_indexes s2
               then create_indexes_of_column env s2 tab (fld_name f) (indexes s2) else s2"
    have 3: "keeps_counting s2 ?s3"
      using keeps_indexes_of_column [of s2 env tab "fld_name f" "indexes s2"]
      by (simp add: keeps_refl)
    have 4: "keeps_counting ?s3 (snd (validate_table_fields env ?s3 tab db_res fs True))"
      by (rule Cons)
    have 12: "keeps_counting s s2" using 1 2 by (rule keeps_trans)
    have 123: "keeps_counting s ?s3" using 12 3 by (rule keeps_trans)
    have 1234: "keeps_counting s (snd (validate_table_fields env ?s3 tab db_res fs True))"
      using 123 4 by (rule keeps_trans)
    show ?thesis
      using True b r 1 12 1234
      by (cases b; cases r) (simp_all)
  qed
qed


lemma keeps_validate_table: "keeps_counting s (snd (snd (afsql_dd_validate_table env s tab)))"
proof (cases "flags s AND AFSQL_DDF_DONT_CREATE_TABLES \<noteq> 0
              \<or> snd (afsql_dd_check_sql_identifier tab True) \<in> validated_tables s")
  case True
  then show ?thesis by (auto simp: afsql_dd_validate_table_def keeps_refl Let_def)
next
  case False
  let ?t = "snd (afsql_dd_check_sql_identifier tab True)"
  obtain b s1 where b: "afsql_dd_begin_new_transaction env s = (b, s1)"
    by (cases "afsql_dd_begin_new_transaction env s")
  have 1: "keeps_counting s s1" using b keeps_begin_new [of s env] by simp
  obtain r s2 where r: "afsql_dd_run_query env s1 (''SELECT * FROM '' @ ?t @ '' WHERE 0=1'') = (r, s2)"
    by (cases "afsql_dd_run_query env s1 (''SELECT * FROM '' @ ?t @ '' WHERE 0=1'')")
  have 2: "keeps_counting s s2"
    using r keeps_run_query [of s1 env "''SELECT * FROM '' @ ?t @ '' WHERE 0=1''"] 1
    by (auto intro: keeps_trans)
  show ?thesis
  proof (cases b)
    case False
    then show ?thesis using \<open>\<not> (flags s AND AFSQL_DDF_DONT_CREATE_TABLES \<noteq> 0
              \<or> snd (afsql_dd_check_sql_identifier tab True) \<in> validated_tables s)\<close> b 1
      by (simp add: afsql_dd_validate_table_def Let_def)
  next
    case True
    note bt = True
    show ?thesis
    proof (cases r)
      case (Some db_res)
      obtain ok s3 where v: "validate_table_fields env s2 ?t db_res (sql_fields s2) False = (ok, s3)"
        by (cases "validate_table_fields env s2 ?t db_res (sql_fields s2) False")
      have 3: "keeps_counting s s3"
        using v keeps_table_fields [of s2 env ?t db_res "sql_fields s2" False] 2
        by (auto intro: keeps_trans)
      then have "keeps_counting s (if ok then s3\<lparr>validated_tables := insert ?t (validated_tables s3)\<rparr> else s3)"
        by (simp add: keeps_counting_def)
      then show ?thesis
        using False b bt r Some v by (simp add: afsql_dd_validate_table_def Let_def)
    next
      case None
      let ?s3 = "snd (afsql_dd_begin_new_transaction env s2)"
      have 3: "keeps_counting s ?s3"
        using keeps_begin_new [of s2 env] 2 by (rule keeps_trans [rotated])
      let ?c = "''CREATE TABLE '' @ ?t @ '' ('' @ create_table_columns (sql_fields ?s3) @ '')''"
      obtain r4 s4 where c: "afsql_dd_run_query env ?s3 ?c = (r4, s4)"
        by (cases "afsql_dd_run_query env ?s3 ?c")
      have 4: "keeps_counting s s4"
        using c keeps_run_query [of ?s3 env ?c] 3 by (auto intro: keeps_trans)
      let ?s5 = "if enable_indexes s4 then create_all_indexes env s4 ?t (indexes s4) else s4"
      have 5: "keeps_counting s ?s5"
        using keeps_all_indexes [of s4 env ?t "indexes s4"] 4 by (auto intro: keeps_trans)
      then have 6: "keeps_counting s (?s5\<lparr>validated_tables := insert ?t (validated_tables ?s5)\<rparr>)"
        by (simp add: keeps_counting_def)
      show ?thesis
        using False b bt r None c 4 6
        by (cases r4) (simp_all add: afsql_dd_validate_table_def Let_def)
    qed
  qed
qed

lemma keeps_session_statements: "keeps_counting s (snd (run_session_statements env s sts))"
proof (induction sts arbitrary: s)
  case Nil
  show ?case by (simp add: keeps_refl)
next
  case (Cons l ls)
  obtain r s1 where r: "afsql_dd_run_query env s l = (r, s1)" by (cases "afsql_dd_run_query env s l")
  have 1: "keeps_counting s s1" using r keeps_run_query [of s env l] by simp
  show ?case
    using r 1 Cons [of s1] by (cases r) (auto intro: keeps_trans)
qed

lemma keeps_connection: "keeps_counting s (snd (afsql_dd_ensure_initialized_connection env s))"
proof (cases "\<not> dbi_ctx s \<and> dbi_conn_new_r env (dbi_calls s) (type s)
              \<and> dbi_conn_connect env (dbi_calls s + 1)")
  case False
  then show ?thesis
    by (auto simp: afsql_dd_ensure_initialized_connection_def Let_def keeps_counting_def)
next
  case True
  let ?s2 = "s\<lparr>dbi_ctx := True, dbi_calls := dbi_calls s + 2\<rparr>"
  have "keeps_counting s ?s2" by (simp add: keeps_counting_def)
  then have "keeps_counting s (snd (run_session_statements env ?s2 (session_statements s)))"
    using keeps_session_statements [of ?s2 env "session_statements s"] by (rule keeps_trans)
  then show ?thesis
    using True by (simp add: afsql_dd_ensure_initialized_connection_def Let_def)
qed

lemma keeps_table: "keeps_counting s (snd (afsql_dd_ensure_accessible_database_table env s m))"
proof -
  obtain b t s1 where v: "afsql_dd_validate_table env s
      (log_template_format env (table s) m LTZ_LOCAL 0) = (b, t, s1)"
    by (cases "afsql_dd_validate_table env s (log_template_format env (table s) m LTZ_LOCAL 0)")
  then have "keeps_counting s s1"
    using keeps_validate_table [of s env "log_template_format env (table s) m LTZ_LOCAL 0"]
    by simp
  then show ?thesis
    using v by (cases b) (simp_all add: afsql_dd_ensure_accessible_database_table_def)
qed

lemma keeps_out: "keeps_counting s (snd (insert_db_out env s m success))"
  by (simp add: keeps_counting_def insert_db_out_def afsql_dd_rollback_msg_def Let_def
        afsql_dd_handle_insert_row_error_depending_on_connection_availability_def
        afsql_dd_handle_transaction_error_def split: prod.splits bool.splits)

lemma keeps_after_query: "keeps_counting s (snd (insert_db_after_query env s m success))"
proof (cases "success \<and> flush_lines_queued s \<noteq> -1")
  case False
  then show ?thesis using keeps_out [of s env m success] by (auto simp: insert_db_after_query_def)
next
  case True
  let ?s1 = "s\<lparr>flush_lines_queued := flush_lines_queued s + 1\<rparr>"
  have 1: "keeps_counting s ?s1" by (simp add: keeps_counting_def)
  obtain b s2 where c: "afsql_dd_commit_transaction env ?s1 = (b, s2)"
    by (cases "afsql_dd_commit_transaction env ?s1")
  have 2: "keeps_counting s s2" using c keeps_commit [of ?s1 env] 1 by (auto intro: keeps_trans)
  have 3: "keeps_counting s (snd (afsql_dd_rollback_transaction env s2))"
    using 2 keeps_rollback [of s2 env] by (rule keeps_trans)
  have 4: "keeps_counting s (snd (insert_db_out env s2 m success))"
    using 2 keeps_out [of s2 env m success] by (rule keeps_trans)
  have 5: "keeps_counting s (snd (insert_db_out env ?s1 m success))"
    using 1 keeps_out [of ?s1 env m success] by (rule keeps_trans)
  show ?thesis
    using True c 3 4 5 by (cases b) (simp_all add: insert_db_after_query_def Let_def)
qed

lemma keeps_insert_db: "keeps_counting s (snd (afsql_dd_insert_db env s))"
proof -
  obtain b s1 where e: "afsql_dd_ensure_initialized_connection env s = (b, s1)"
    by (cases "afsql_dd_ensure_initialized_connection env s")
  have 1: "keeps_counting s s1" using e keeps_connection [of s env] by simp
  show ?thesis
  proof (cases "b \<and> log_queue_pop_head (queue s1) \<noteq> None")
    case False
    then have "\<not> b \<or> log_queue_pop_head (queue s1) = None" by blast
    then show ?thesis using e 1 by (cases b) (auto simp: afsql_dd_insert_db_def)
  next
    case True
    then obtain m q where p: "log_queue_pop_head (queue s1) = Some (m, q)" by auto
    have 2: "keeps_counting s (s1\<lparr>queue := q\<rparr>)" using 1 by (simp add: keeps_counting_def)
    obtain t s2 where t: "afsql_dd_ensure_accessible_database_table env (s1\<lparr>queue := q\<rparr>) m = (t, s2)"
      by (cases "afsql_dd_ensure_accessible_database_table env (s1\<lparr>queue := q\<rparr>) m")
    have 3: "keeps_counting s s2"
      using t keeps_table [of "s1\<lparr>queue := q\<rparr>" env m] 2 by (auto intro: keeps_trans)
    have 4: "keeps_counting s (snd (insert_db_out env s2 m False))"
      using 3 keeps_out [of s2 env m False] by (rule keeps_trans)
    obtain b3 s3 where g: "(if afsql_dd_should_begin_new_transaction s2
        then afsql_dd_begin_transaction env s2 else (True, s2)) = (b3, s3)"
      by (cases "if afsql_dd_should_begin_new_transaction s2
        then afsql_dd_begin_transaction env s2 else (True, s2)")
    have 5: "keeps_counting s s3"
      using g keeps_begin [of s2 env] 3 by (auto intro: keeps_trans split: if_splits)
    have 6: "keeps_counting s (snd (insert_db_out env s3 m False))"
      using 5 keeps_out [of s3 env m False] by (rule keeps_trans)
    have 7: "keeps_counting s (snd (insert_db_after_query env s4 m (r \<noteq> None)))"
      if "afsql_dd_run_query env s3 (afsql_dd_build_insert_command env s3 m tab) = (r, s4)"
      for tab r s4
    proof -
      have "keeps_counting s3 s4"
        using that keeps_run_query [of s3 env "afsql_dd_build_insert_command env s3 m tab"]
        by simp
      then have "keeps_counting s s4" using 5 by (blast intro: keeps_trans)
      then show ?thesis using keeps_after_query by (blast intro: keeps_trans)
    qed
    show ?thesis
      using True e p t g 4 6 7
      by (cases t; cases b3) (auto simp: afsql_dd_insert_db_def split: prod.splits)
  qed
qed

lemma keeps_thread_insert: "keeps_counting s (db_thread_insert env s)"
  using keeps_insert_db [of s env]
  by (auto simp: db_thread_insert_def afsql_dd_suspend_def afsql_dd_disconnect_def
        keeps_counting_def split: prod.splits bool.splits)

lemma keeps_idle_flush: "keeps_counting s (db_thread_idle_flush env s)"
proof -
  obtain b s1 where c: "afsql_dd_commit_transaction env s = (b, s1)"
    by (cases "afsql_dd_commit_transaction env s")
  have 1: "keeps_counting s s1" using c keeps_commit [of s env] by simp
  obtain b2 s2 where r: "afsql_dd_rollback_transaction env s1 = (b2, s2)"
    by (cases "afsql_dd_rollback_transaction env s1")
  have 2: "keeps_counting s s2" using r keeps_rollback [of s1 env] 1 by (auto intro: keeps_trans)
  then have 3: "keeps_counting s (afsql_dd_suspend (afsql_dd_disconnect s2))"
    by (simp add: keeps_counting_def afsql_dd_suspend_def afsql_dd_disconnect_def)
  show ?thesis
    using c r 1 2 3 by (cases b; cases b2) (simp_all add: db_thread_idle_flush_def keeps_refl)
qed

lemma keeps_final_flush: "keeps_counting s (db_thread_final_flush env s)"
proof -
  obtain b s1 where c: "afsql_dd_commit_transaction env s = (b, s1)"
    by (cases "afsql_dd_commit_transaction env s")
  have 1: "keeps_counting s s1" using c keeps_commit [of s env] by simp
  have 2: "keeps_counting s (snd (afsql_dd_rollback_transaction env s1))"
    using 1 keeps_rollback [of s1 env] by (rule keeps_trans)
  show ?thesis
    using c 1 2 by (cases b) (simp_all add: db_thread_final_flush_def keeps_refl)
qed

lemma reaches_keeps: "reaches env s s' \<Longrightarrow> keeps_counting s s'"
proof (induction rule: reaches.induct)
  case start
  show ?case by (rule keeps_refl)
next
  case (idle_flush s')
  then show ?case using keeps_idle_flush by (blast intro: keeps_trans)
next
  case (insert s')
  then show ?case using keeps_thread_insert by (blast intro: keeps_trans)
next
  case (final_insert s')
  then show ?case using keeps_insert_db by (blast intro: keeps_trans)
next
  case (final_flush s')
  then show ?case using keeps_final_flush by (blast intro: keeps_trans)
next
  case (disconnect s')
  then show ?case by (simp add: keeps_counting_def afsql_dd_disconnect_def)
next
  case (pushed s' msg)
  then show ?case by (simp add: keeps_counting_def afsql_dd_queue_def)
qed

text \<open>
  Claim C1, amended. When \<open>afsql_dd_init\<close> has returned TRUE for a configured
  destination, \<open>flush_lines\<close> is the configured value, or the global option where \<open>-1\<close>
  was configured, and \<open>flush_lines_queued\<close> is 0 if the flag \<open>explicit-commits\<close> is set
  and \<open>flush_lines\<close> is positive, and \<open>-1\<close> otherwise; so \<open>flush_lines = -1\<close> implies
  \<open>flush_lines_queued = -1\<close> there. In every state reached from there the flags and
  \<open>flush_lines\<close> are the same; and for a destination with \<open>explicit-commits\<close> and
  positive \<open>flush_lines\<close>, \<open>flush_lines_queued\<close> is never negative, so that neither of
  the two is \<open>-1\<close> in any state reached and the equivalence holds throughout.
\<close>

theorem init_flush_lines_queued:
  assumes "configured self" and "afsql_dd_init ienv i self = (True, s0, i')"
    and "reaches env s0 s"
  shows "flush_lines s0 = (if flush_lines self = -1 then cfg_flush_lines ienv else flush_lines self)
     \<and> flush_lines_queued s0
           = (if flags s0 AND AFSQL_DDF_EXPLICIT_COMMITS \<noteq> 0 \<and> flush_lines s0 > 0
              then 0 else -1)
     \<and> (flush_lines s0 = -1 \<longrightarrow> flush_lines_queued s0 = -1)
     \<and> flush_lines s = flush_lines s0 \<and> flags s = flags s0
     \<and> (flags s0 AND AFSQL_DDF_EXPLICIT_COMMITS \<noteq> 0 \<and> flush_lines s0 > 0 \<longrightarrow>
          flush_lines s \<noteq> -1 \<and> 0 \<le> flush_lines_queued s
          \<and> ((flush_lines s = -1) = (flush_lines_queued s = -1)))"
proof -
  have a: "flush_lines s0 = (if flush_lines self = -1 then cfg_flush_lines ienv else flush_lines self)"
    and b: "flush_lines_queued s0
           = (if flags s0 AND AFSQL_DDF_EXPLICIT_COMMITS \<noteq> 0 \<and> flush_lines s0 > 0
              then 0 else -1)"
    using configured_invariant [OF assms(1)] init_flush_lines [OF assms(2)] by auto
  have k: "flush_lines s = flush_lines s0" "flags s = flags s0"
    "0 \<le> flush_lines_queued s0 \<longrightarrow> 0 \<le> flush_lines_queued s"
    using reaches_keeps [OF assms(3)] by (simp_all add: keeps_counting_def)
  show ?thesis using a b k by auto
qed

theorem init_flush_lines_queued_witness:
  "flush_lines_queued (fst (snd (afsql_dd_init sample_init_env False
       (sample_config 100 AFSQL_DDF_EXPLICIT_COMMITS)))) = 0
   \<and> flush_lines_queued (fst (snd (afsql_dd_init sample_init_env False
       (sample_config 100 0)))) = -1
   \<and> flush_lines_queued (fst (snd (afsql_dd_init sample_init_env False
       (sample_config (-1) AFSQL_DDF_EXPLICIT_COMMITS)))) = -1
   \<and> flush_lines (fst (snd (afsql_dd_init sample_init_env False
       (sample_config (-1) AFSQL_DDF_EXPLICIT_COMMITS)))) = 0
   \<and> 0 \<le> flush_lines_queued (db_thread_insert (sample_env [] True True)
       (fst (snd (afsql_dd_init sample_init_env False
          (sample_config 100 AFSQL_DDF_EXPLICIT_COMMITS)))))
   \<and> flush_lines (db_thread_insert (sample_env [] True True)
       (fst (snd (afsql_dd_init sample_init_env False
          (sample_config 100 AFSQL_DDF_EXPLICIT_COMMITS))))) = 100"
proof -
  let ?i1 = "afsql_dd_init sample_init_env False (sample_config 100 AFSQL_DDF_EXPLICIT_COMMITS)"
  let ?i2 = "afsql_dd_init sample_init_env False (sample_config 100 0)"
  let ?i3 = "afsql_dd_init sample_init_env False (sample_config (-1) AFSQL_DDF_EXPLICIT_COMMITS)"
  let ?env = "sample_env [] True True"
  have "fst ?i1" by code_simp
  then have e1: "?i1 = (True, fst (snd ?i1), snd (snd ?i1))" by (cases ?i1) simp
  have "fst ?i2" by code_simp
  then have e2: "?i2 = (True, fst (snd ?i2), snd (snd ?i2))" by (cases ?i2) simp
  have "fst ?i3" by code_simp
  then have e3: "?i3 = (True, fst (snd ?i3), snd (snd ?i3))" by (cases ?i3) simp
  have f1: "flags (fst (snd ?i1)) = 1" "flush_lines (fst (snd ?i1)) = 100" by code_simp+
  have f2: "flags (fst (snd ?i2)) = 0" by code_simp
  have f3: "flush_lines (sample_config (-1) AFSQL_DDF_EXPLICIT_COMMITS) = -1"
    "cfg_flush_lines sample_init_env = 0" by code_simp+
  have r1: "reaches ?env (fst (snd ?i1)) (db_thread_insert ?env (fst (snd ?i1)))"
    by (intro reaches.insert reaches.start)
  have r2: "reaches ?env (fst (snd ?i2)) (fst (snd ?i2))"
    and r3: "reaches ?env (fst (snd ?i3)) (fst (snd ?i3))"
    by (rule reaches.start)+
  show ?thesis
    using init_flush_lines_queued [OF sample_configured e1 r1]
      init_flush_lines_queued [OF sample_configured e2 r2]
      init_flush_lines_queued [OF sample_configured e3 r3] f1 f2 f3
    by (simp add: AFSQL_DDF_EXPLICIT_COMMITS_def)
qed

text \<open>
  For the other destinations the theorem speaks of the state \<open>afsql_dd_init\<close> leaves
  only. Later the counter does not keep the value \<open>-1\<close>: \<open>afsql_dd_commit_transaction\<close>
  and \<open>afsql_dd_handle_transaction_error\<close> set it to 0 whatever it was, and
  \<open>afsql_dd_validate_table\<close> commits while it checks a table that is new to it. Here
  a destination configured with \<open>-1\<close> and without the flag counts one line after its
  first insertion.
\<close>

lemma autocommit_counter_reset:
  "flags (sample_running (-1) 0 [sample_msg]) = 0
   \<and> flush_lines_queued (sample_running (-1) 0 [sample_msg]) = -1
   \<and> flush_lines_queued (db_thread_insert (sample_env [] True True)
        (sample_running (-1) 0 [sample_msg])) = 1"
  by code_simp

section \<open>Retries of a failing INSERT\<close>




lemma count_list_others:
  "ins \<notin> set qs \<Longrightarrow> count_list (xs @ qs) ins = count_list xs ins"
  by (induction xs) (simp_all add: count_list_0_iff)

























end
